theory Spec2Isabelle
  imports Main
begin

section \<open>Python strings and integers\<close>

text \<open>
  A Python \<open>str\<close> is modelled as a \<open>string\<close> whose characters are the code points
  below 256. \<open>str.strip()\<close> removes the white space of that range from both ends.
\<close>

definition is_space :: "char \<Rightarrow> bool" where
  "is_space c = (let n = of_char c :: nat in
     (9 \<le> n \<and> n \<le> 13) \<or> (28 \<le> n \<and> n \<le> 32) \<or> n = 133 \<or> n = 160)"

definition strip :: "string \<Rightarrow> string" where
  "strip s = rev (dropWhile is_space (rev (dropWhile is_space s)))"

definition is_digit :: "char \<Rightarrow> bool" where
  "is_digit c = (let n = of_char c :: nat in 48 \<le> n \<and> n \<le> 57)"

definition digit_val :: "char \<Rightarrow> nat" where
  "digit_val c = of_char c - 48"

text \<open>
  \<open>int(t)\<close> on a string: optional white space around, an optional sign, then decimal
  digits, where single underscores may stand between digits. \<open>None\<close> is the
  \<open>ValueError\<close> of the conversion.
\<close>

fun parse_digits :: "nat \<Rightarrow> string \<Rightarrow> nat option" where
  "parse_digits acc [] = Some acc"
| "parse_digits acc [c] = (if is_digit c then Some (acc * 10 + digit_val c) else None)"
| "parse_digits acc (c # d # cs) =
     (if is_digit c then parse_digits (acc * 10 + digit_val c) (d # cs)
      else if c = CHR ''_'' \<and> is_digit d then parse_digits acc (d # cs)
      else None)"

definition parse_unsigned :: "string \<Rightarrow> nat option" where
  "parse_unsigned s =
     (case s of [] \<Rightarrow> None
      | c # cs \<Rightarrow> if is_digit c then parse_digits 0 s else None)"

definition py_int :: "string \<Rightarrow> int option" where
  "py_int s =
     (case strip s of
        [] \<Rightarrow> None
      | c # cs \<Rightarrow>
          if c = CHR ''-'' then map_option (\<lambda>n. - int n) (parse_unsigned cs)
          else if c = CHR ''+'' then map_option int (parse_unsigned cs)
          else map_option int (parse_unsigned (c # cs)))"

text \<open>\<open>str(n)\<close> of an integer: its decimal digits, with a minus sign when negative.\<close>

definition digit_char :: "nat \<Rightarrow> char" where
  "digit_char d = char_of (48 + d)"

fun str_nat :: "nat \<Rightarrow> string" where
  "str_nat n = (if n < 10 then [digit_char n] else str_nat (n div 10) @ [digit_char (n mod 10)])"

declare str_nat.simps [simp del]

definition str_int :: "int \<Rightarrow> string" where
  "str_int i = (if i < 0 then CHR ''-'' # str_nat (nat (- i)) else str_nat (nat i))"

text \<open>
  \<open>urllib.parse.quote(s, safe="")\<close>: the string is encoded as UTF-8 and every byte
  that is not a letter, a digit or one of \<open>_.-~\<close> becomes \<open>%XX\<close>.
\<close>

definition hex_char :: "nat \<Rightarrow> char" where
  "hex_char d = (if d < 10 then char_of (48 + d) else char_of (55 + d))"

definition utf8 :: "char \<Rightarrow> nat list" where
  "utf8 c = (let n = of_char c :: nat in
     if n < 128 then [n] else [192 + n div 64, 128 + n mod 64])"

definition always_safe :: "nat \<Rightarrow> bool" where
  "always_safe n = ((65 \<le> n \<and> n \<le> 90) \<or> (97 \<le> n \<and> n \<le> 122) \<or> (48 \<le> n \<and> n \<le> 57)
     \<or> n = 95 \<or> n = 46 \<or> n = 45 \<or> n = 126)"

definition quote_byte :: "nat \<Rightarrow> string" where
  "quote_byte n = (if always_safe n then [char_of n]
     else [CHR ''%'', hex_char (n div 16), hex_char (n mod 16)])"

definition q :: "string \<Rightarrow> string" where
  "q s = concat (map quote_byte (concat (map utf8 s)))"

section \<open>The XML documents, as lxml answers the queries of the code\<close>

text \<open>
  lxml is outside the repository. An element is what the code can observe of it: its
  \<open>text\<close> attribute (\<open>node_text\<close>) and the answer of \<open>xpath\<close> to each query string.
  A query whose last step is \<open>text()\<close> is answered by a list of strings
  (\<open>xpath_text\<close>), every other query of this repository selects elements
  (\<open>xpath_nodes\<close>).
\<close>

datatype element =
  Element (node_text: "string option")
          (xpath_nodes: "string \<Rightarrow> element list")
          (xpath_text: "string \<Rightarrow> string list")

datatype xval = XStr string | XElem element

definition ends_with :: "string \<Rightarrow> string \<Rightarrow> bool" where
  "ends_with s suffix = (take (length suffix) (rev s) = rev suffix)"

definition xpath :: "element \<Rightarrow> string \<Rightarrow> xval list" where
  "xpath e query =
     (if ends_with query ''text()'' then map XStr (xpath_text e query)
      else map XElem (xpath_nodes e query))"

subsection \<open>\<open>_xml.py\<close>\<close>

definition get_texts :: "element \<Rightarrow> string \<Rightarrow> string list" where
  "get_texts entry xpath_query =
     (let nodes = xpath entry xpath_query in
      concat (map (\<lambda>n. case n of
                     XStr s \<Rightarrow> []
                   | XElem e \<Rightarrow> (case node_text e of
                         None \<Rightarrow> []
                       | Some t \<Rightarrow> if t \<noteq> [] then [t] else []))
              nodes))"

definition get_first :: "element \<Rightarrow> string \<Rightarrow> string option" where
  "get_first entry xpath_query =
     (let vals = get_texts entry xpath_query in
      case vals of [] \<Rightarrow> None | v # _ \<Rightarrow> Some v)"

definition texts_local :: "element \<Rightarrow> string \<Rightarrow> string list" where
  "texts_local entry xpath_expr =
     (let vals = xpath entry xpath_expr in
      concat (map (\<lambda>v. case v of
                     XStr s \<Rightarrow> (let t = strip s in if t \<noteq> [] then [t] else [])
                   | XElem e \<Rightarrow> (case node_text e of
                         None \<Rightarrow> []
                       | Some t \<Rightarrow> if t \<noteq> [] \<and> strip t \<noteq> [] then [strip t] else []))
              vals))"

definition first_local :: "element \<Rightarrow> string \<Rightarrow> string option" where
  "first_local entry xpath_expr =
     (let vals = texts_local entry xpath_expr in
      case vals of [] \<Rightarrow> None | v # _ \<Rightarrow> Some v)"

definition truthy :: "string option \<Rightarrow> bool" where
  "truthy s = (case s of None \<Rightarrow> False | Some t \<Rightarrow> t \<noteq> [])"

definition pick_ja_or_first_tag_local :: "element \<Rightarrow> string \<Rightarrow> string option" where
  "pick_ja_or_first_tag_local entry tag =
     (let ja = first_local entry
                 (''./*[local-name()='' @ [CHR 0x27] @ tag @ [CHR 0x27]
                    @ '']/*[local-name()='ja']/text()'')
      in if truthy ja then ja
         else first_local entry
                (''./*[local-name()='' @ [CHR 0x27] @ tag @ [CHR 0x27] @ '']//text()''))"

definition authors_local :: "element \<Rightarrow> string list" where
  "authors_local entry =
     (let ja = texts_local entry
                 ''./*[local-name()='author']/*[local-name()='ja']/*[local-name()='name']/text()''
      in if ja \<noteq> [] then ja
         else texts_local entry ''./*[local-name()='author']/*[local-name()='name']/text()'')"

section \<open>\<open>client.py\<close>\<close>

definition API_URL :: string where
  "API_URL = ''https://api.jstage.jst.go.jp/searchapi/do''"

definition ALLOWED_FIELDS :: "string set" where
  "ALLOWED_FIELDS = {''article'', ''abst'', ''text'', ''keyword''}"

definition SEARCH_PARAM_KEYS :: "string set" where
  "SEARCH_PARAM_KEYS = {''material'', ''article'', ''author'', ''affil'', ''keyword'',
     ''abst'', ''text'', ''issn'', ''cdjournal''}"

datatype error = ValueError string | JStageAPIError string

definition get_result_status :: "element \<Rightarrow> string option" where
  "get_result_status root =
     (let status = xpath_text root ''//*[local-name()='result']/*[local-name()='status']/text()''
      in case status of
           [] \<Rightarrow> None
         | s0 # _ \<Rightarrow> (let s = strip s0 in if s \<noteq> [] then Some s else None))"

definition int_or_raise :: "string \<Rightarrow> error + int option" where
  "int_or_raise t =
     (case py_int t of
        None \<Rightarrow> Inl (ValueError (''invalid literal for int() with base 10: '' @ [CHR 0x27] @ t
                                  @ [CHR 0x27]))
      | Some n \<Rightarrow> Inr (Some n))"

definition get_total_results_first :: "element \<Rightarrow> error + int option" where
  "get_total_results_first root =
     (let tr = xpath_text root ''//opensearch:totalResults/text()'' in
      if tr \<noteq> [] \<and> strip (hd tr) \<noteq> [] then int_or_raise (strip (hd tr))
      else
        (let tr2 = xpath_text root ''//*[local-name()='totalResults']/text()'' in
         if tr2 \<noteq> [] \<and> strip (hd tr2) \<noteq> [] then int_or_raise (strip (hd tr2))
         else Inr None))"

text \<open>The dictionary appended to \<open>all_data\<close> for one entry (lines 189 to 206).\<close>

record raw_record =
  raw_author :: "string list"
  raw_article_title :: "string option"
  raw_material_title :: "string option"
  raw_cdjournal :: "string option"
  raw_p_issn :: "string option"
  raw_o_issn :: "string option"
  raw_article_link :: "string option"
  raw_pubyear :: "string option"
  raw_doi :: "string option"
  raw_volume :: "string option"
  raw_cdvols :: "string option"
  raw_number :: "string option"
  raw_starting_page :: "string option"
  raw_ending_page :: "string option"

definition entry_record :: "element \<Rightarrow> raw_record" where
  "entry_record entry =
     \<lparr> raw_author = authors_local entry,
       raw_article_title = pick_ja_or_first_tag_local entry ''article_title'',
       raw_material_title = pick_ja_or_first_tag_local entry ''material_title'',
       raw_cdjournal = get_first entry ''atom:cdjournal'',
       raw_p_issn = get_first entry ''prism:issn'',
       raw_o_issn = get_first entry ''prism:eIssn'',
       raw_article_link = pick_ja_or_first_tag_local entry ''article_link'',
       raw_pubyear = get_first entry ''atom:pubyear'',
       raw_doi = get_first entry ''prism:doi'',
       raw_volume = get_first entry ''prism:volume'',
       raw_cdvols =
         (if xpath_text entry ''./*[local-name()='cdvols']/text()'' \<noteq> []
          then Some (strip (hd (xpath_text entry ''./*[local-name()='cdvols']/text()'')))
          else None),
       raw_number = get_first entry ''prism:number'',
       raw_starting_page = get_first entry ''prism:startingPage'',
       raw_ending_page = get_first entry ''prism:endingPage'' \<rparr>"

text \<open>
  The loop over the entries of one page (lines 187 to 209): every entry is appended, and
  the loop is left as soon as the accumulator has \<open>max_records\<close> records.
\<close>

fun append_entries :: "int \<Rightarrow> raw_record list \<Rightarrow> element list \<Rightarrow> raw_record list" where
  "append_entries max_records all_data [] = all_data"
| "append_entries max_records all_data (entry # entries) =
     (let all_data' = all_data @ [entry_record entry] in
      if int (length all_data') \<ge> max_records then all_data'
      else append_entries max_records all_data' entries)"

text \<open>
  \<open>base_params\<close> and \<open>params\<close> are dictionaries that keep the order of insertion:
  association lists, where an assignment to a present key replaces its value in place.
\<close>

type_synonym params = "(string \<times> string) list"

fun dict_set :: "params \<Rightarrow> string \<Rightarrow> string \<Rightarrow> params" where
  "dict_set [] k v = [(k, v)]"
| "dict_set ((k', v') # kvs) k v =
     (if k' = k then (k, v) # kvs else (k', v') # dict_set kvs k v)"

definition dict_keys :: "params \<Rightarrow> string set" where
  "dict_keys d = fst ` set d"

fun join :: "string \<Rightarrow> string list \<Rightarrow> string" where
  "join sep [] = []"
| "join sep [x] = x"
| "join sep (x # y # ys) = x @ sep @ join sep (y # ys)"

text \<open>
  What one \<open>session.get(url)\<close> followed by \<open>raise_for_status\<close> and
  \<open>etree.fromstring\<close> gives: a \<open>requests.RequestException\<close>, a body that is not
  XML, or the root element of the document. The session is a function of the number of
  requests made before this one and of the URL, so it can answer with any sequence of
  pages.
\<close>

datatype response = RequestException string | NotXml | Xml element

type_synonym http_session = "nat \<Rightarrow> string \<Rightarrow> response"

type_synonym trace = "(params \<times> response) list"

text \<open>
  The ways out of the \<open>while True\<close> loop: an exception, the \<open>return\<close> at line 169, or
  one of the \<open>break\<close> statements with the state it leaves (\<open>total_results\<close>,
  \<open>all_data\<close>).
\<close>

datatype break_reason = ZeroEntries | NoProgress | MaxRecords | PastTotal

datatype loop_exit =
  Raise error
| ReturnEmpty
| Break break_reason "int option" "raw_record list"

function loop ::
  "http_session \<Rightarrow> params \<Rightarrow> int \<Rightarrow> int \<Rightarrow> int \<Rightarrow> int option \<Rightarrow> raw_record list \<Rightarrow> trace
     \<Rightarrow> trace \<times> loop_exit" where
  "loop session base_params step max_records start_idx total_results all_data done =
     (let params = dict_set (dict_set base_params ''start'' (str_int start_idx))
                     ''count'' (str_int step);
          query_str = join ''&'' (map (\<lambda>(k, v). k @ ''='' @ q v) params);
          url = API_URL @ ''?'' @ query_str;
          r = session (length done) url;
          done' = done @ [(params, r)]
      in case r of
           RequestException e \<Rightarrow> (done', Raise (JStageAPIError (''Request failed: '' @ e)))
         | NotXml \<Rightarrow> (done', Raise (JStageAPIError ''Failed to parse XML response''))
         | Xml root \<Rightarrow>
             if get_result_status root = Some ''ERR_001'' then (done', ReturnEmpty)
             else
               (case (if total_results = None then get_total_results_first root
                      else Inr total_results) of
                  Inl e \<Rightarrow> (done', Raise e)
                | Inr total_results' \<Rightarrow>
                    (let entries = xpath_nodes root ''//atom:entry'' in
                     if start_idx = 1 \<and> entries = []
                     then (done', Break ZeroEntries total_results' all_data)
                     else if entries = []
                     then (done', Break ZeroEntries total_results' all_data)
                     else
                       (let prev_len = length all_data;
                            all_data' = append_entries max_records all_data entries
                        in if length all_data' = prev_len
                           then (done', Break NoProgress total_results' all_data')
                           else if int (length all_data') \<ge> max_records
                           then (done', Break MaxRecords total_results' all_data')
                           else
                             (let start_idx' = start_idx + step in
                              if total_results' \<noteq> None \<and> start_idx' > the total_results'
                              then (done', Break PastTotal total_results' all_data')
                              else loop session base_params step max_records start_idx'
                                     total_results' all_data' done')))))"
  by pat_completeness auto
termination
proof -
  have grows: "length acc \<le> length (append_entries m acc es)" for m acc es
  proof (induction es arbitrary: acc)
    case Nil
    show ?case by simp
  next
    case (Cons e es)
    have "length (acc @ [entry_record e]) \<le> length (append_entries m (acc @ [entry_record e]) es)"
      by (rule Cons.IH)
    then show ?case by (simp add: Let_def)
  qed
  have strict: "length (append_entries m acc es) \<noteq> length acc
      \<Longrightarrow> length acc < length (append_entries m acc es)" for m acc es
    using grows [of acc m es] by linarith
  have below: "\<not> m \<le> int (length (append_entries m acc es)) \<Longrightarrow> int (length acc) < m"
    for m acc es
    using grows [of acc m es] by linarith
  show ?thesis
    by (relation "measure (\<lambda>(session, base_params, step, max_records, start_idx, total_results,
                            all_data, done). nat (max_records - int (length all_data)))")
       (simp_all add: strict below)
qed

text \<open>
  The polars data frame: its column names in order and its rows. \<open>pl.DataFrame\<close> of an
  empty list has no column and no row; of a list of dictionaries it has their keys as
  columns. The casts of lines 229 to 235 leave strings and lists of strings as they are;
  the non-strict cast of a string to \<open>Int32\<close> is polars' own and is the parameter
  \<open>cast_int32\<close>.
\<close>

record df_row =
  col_author :: "string list"
  col_article_title :: "string option"
  col_material_title :: "string option"
  col_cdjournal :: "string option"
  col_p_issn :: "string option"
  col_o_issn :: "string option"
  col_article_link :: "string option"
  col_pubyear :: "int option"
  col_doi :: "string option"
  col_volume :: "string option"
  col_cdvols :: "string option"
  col_number :: "string option"
  col_starting_page :: "int option"
  col_ending_page :: "int option"
  col_url_doi :: "string option"

record dataframe =
  columns :: "string list"
  rows :: "df_row list"

definition empty_frame :: dataframe where
  "empty_frame = \<lparr> columns = [], rows = [] \<rparr>"

definition record_keys :: "string list" where
  "record_keys = [''author'', ''article_title'', ''material_title'', ''cdjournal'', ''p_issn'',
     ''o_issn'', ''article_link'', ''pubyear'', ''doi'', ''volume'', ''cdvols'', ''number'',
     ''starting_page'', ''ending_page'']"

definition with_columns_row :: "(string \<Rightarrow> int option) \<Rightarrow> raw_record \<Rightarrow> df_row" where
  "with_columns_row cast_int32 r =
     \<lparr> col_author = raw_author r,
       col_article_title = raw_article_title r,
       col_material_title = raw_material_title r,
       col_cdjournal = raw_cdjournal r,
       col_p_issn = raw_p_issn r,
       col_o_issn = raw_o_issn r,
       col_article_link = raw_article_link r,
       col_pubyear = Option.bind (raw_pubyear r) cast_int32,
       col_doi = raw_doi r,
       col_volume = raw_volume r,
       col_cdvols = raw_cdvols r,
       col_number = raw_number r,
       col_starting_page = Option.bind (raw_starting_page r) cast_int32,
       col_ending_page = Option.bind (raw_ending_page r) cast_int32,
       col_url_doi = (if raw_doi r \<noteq> None then Some (''https://doi.org/'' @ the (raw_doi r))
                      else None) \<rparr>"

text \<open>Lines 224 to 241: the frame of \<open>all_data\<close>, typed when it is not empty.\<close>

definition build_frame :: "(string \<Rightarrow> int option) \<Rightarrow> raw_record list \<Rightarrow> dataframe" where
  "build_frame cast_int32 all_data =
     (if all_data = [] then empty_frame
      else \<lparr> columns = record_keys @ [''url_doi''],
             rows = map (with_columns_row cast_int32) all_data \<rparr>)"

record fetch_result =
  df :: dataframe
  total_results :: "int option"

text \<open>Lines 109 to 128: the search conditions, without \<open>start\<close> and \<open>count\<close>.\<close>

definition build_base_params ::
  "string option \<Rightarrow> int \<Rightarrow> string \<Rightarrow> string option \<Rightarrow> string option \<Rightarrow> string option
     \<Rightarrow> string option \<Rightarrow> string option \<Rightarrow> params" where
  "build_base_params target_word year field material author affil issn cdjournal =
     (let base_params = [(''service'', ''3''), (''pubyearfrom'', str_int year)];
          base_params = (if target_word \<noteq> None \<and> strip (the target_word) \<noteq> []
                         then dict_set base_params field (strip (the target_word))
                         else base_params);
          base_params = (if truthy material then dict_set base_params ''material'' (the material)
                         else base_params);
          base_params = (if truthy author then dict_set base_params ''author'' (the author)
                         else base_params);
          base_params = (if truthy affil then dict_set base_params ''affil'' (the affil)
                         else base_params);
          base_params = (if truthy issn then dict_set base_params ''issn'' (the issn)
                         else base_params);
          base_params = (if truthy cdjournal then dict_set base_params ''cdjournal'' (the cdjournal)
                         else base_params)
      in base_params)"

definition no_search_term_message :: string where
  "no_search_term_message =
     ''At least one search parameter must be provided: '' @
     ''target_word (with field), material, author, affil, issn, or cdjournal.''"

text \<open>
  \<open>fetch\<close> up to the end of its loop: the requests made with their responses, and the
  way the loop was left. The arguments \<open>sleep\<close> and \<open>timeout\<close> only pace the
  requests and are left out; the session is always given (a session that \<open>fetch\<close>
  creates itself is the network, one more such function).
\<close>

definition fetch_run ::
  "string option \<Rightarrow> int \<Rightarrow> string \<Rightarrow> int \<Rightarrow> int \<Rightarrow> http_session \<Rightarrow> string option
     \<Rightarrow> string option \<Rightarrow> string option \<Rightarrow> string option \<Rightarrow> string option
     \<Rightarrow> trace \<times> loop_exit" where
  "fetch_run target_word year field max_records step session material author affil issn cdjournal =
     (if field \<notin> ALLOWED_FIELDS
      then ([], Raise (ValueError ''field must be one of ['abst', 'article', 'keyword', 'text']''))
      else if max_records \<le> 0 then ([], Raise (ValueError ''max_records must be > 0''))
      else if step \<le> 0 then ([], Raise (ValueError ''step must be > 0''))
      else
        (let base_params =
               build_base_params target_word year field material author affil issn cdjournal
         in if \<not> (\<exists>k \<in> SEARCH_PARAM_KEYS. k \<in> dict_keys base_params)
            then ([], Raise (ValueError no_search_term_message))
            else loop session base_params step max_records 1 None [] []))"

text \<open>Lines 169 and 224 to 247: what \<open>fetch\<close> returns or raises.\<close>

definition finish :: "(string \<Rightarrow> int option) \<Rightarrow> loop_exit \<Rightarrow> error + fetch_result" where
  "finish cast_int32 ex =
     (case ex of
        Raise e \<Rightarrow> Inl e
      | ReturnEmpty \<Rightarrow> Inr \<lparr> df = empty_frame, total_results = Some 0 \<rparr>
      | Break reason captured all_data \<Rightarrow>
          Inr \<lparr> df = build_frame cast_int32 all_data,
                total_results = (if captured = None then Some (int (length all_data))
                                 else captured) \<rparr>)"

definition fetch ::
  "(string \<Rightarrow> int option) \<Rightarrow> string option \<Rightarrow> int \<Rightarrow> string \<Rightarrow> int \<Rightarrow> int \<Rightarrow> http_session
     \<Rightarrow> string option \<Rightarrow> string option \<Rightarrow> string option \<Rightarrow> string option \<Rightarrow> string option
     \<Rightarrow> error + fetch_result" where
  "fetch cast_int32 target_word year field max_records step session material author affil issn
     cdjournal =
     finish cast_int32
       (snd (fetch_run target_word year field max_records step session material author affil issn
               cdjournal))"

section \<open>Notions used to state the properties\<close>

text \<open>
  The first request of the loop and the URL it is sent to (lines 148 to 153), named so
  that statements can speak of them.
\<close>

definition page_params :: "params \<Rightarrow> int \<Rightarrow> int \<Rightarrow> params" where
  "page_params base_params step start_idx =
     dict_set (dict_set base_params ''start'' (str_int start_idx)) ''count'' (str_int step)"

definition page_url :: "params \<Rightarrow> string" where
  "page_url ps = API_URL @ ''?'' @ join ''&'' (map (\<lambda>(k, v). k @ ''='' @ q v) ps)"

text \<open>What a response page carries.\<close>

definition is_sentinel :: "response \<Rightarrow> bool" where
  "is_sentinel r = (case r of Xml root \<Rightarrow> get_result_status root = Some ''ERR_001'' | _ \<Rightarrow> False)"

definition page_entries :: "response \<Rightarrow> element list" where
  "page_entries r = (case r of Xml root \<Rightarrow> xpath_nodes root ''//atom:entry'' | _ \<Rightarrow> [])"

definition reported_total :: "response \<Rightarrow> int option" where
  "reported_total r =
     (case r of
        Xml root \<Rightarrow> (case get_total_results_first root of Inr (Some t) \<Rightarrow> Some t | _ \<Rightarrow> None)
      | _ \<Rightarrow> None)"

text \<open>The total of the first page, in order, that reports one.\<close>

fun first_reported :: "response list \<Rightarrow> int option" where
  "first_reported [] = None"
| "first_reported (r # rs) =
     (case reported_total r of Some t \<Rightarrow> Some t | None \<Rightarrow> first_reported rs)"

text \<open>The records of all entries of a list of pages, in order.\<close>

definition records_of :: "response list \<Rightarrow> raw_record list" where
  "records_of rs = map entry_record (concat (map page_entries rs))"

text \<open>
  The text that \<open>_get_total_results_first\<close> hands to \<open>int\<close>: the first text of the
  qualified query when it is not blank, else the first text of the local-name query when
  that is not blank.
\<close>

definition total_text :: "element \<Rightarrow> string option" where
  "total_text root =
     (let tr = xpath_text root ''//opensearch:totalResults/text()'' in
      if tr \<noteq> [] \<and> strip (hd tr) \<noteq> [] then Some (strip (hd tr))
      else
        (let tr2 = xpath_text root ''//*[local-name()='totalResults']/text()'' in
         if tr2 \<noteq> [] \<and> strip (hd tr2) \<noteq> [] then Some (strip (hd tr2)) else None))"

text \<open>A search term that \<open>fetch\<close> puts into the query (lines 115 to 128).\<close>

definition usable_search_term ::
  "string option \<Rightarrow> string option \<Rightarrow> string option \<Rightarrow> string option \<Rightarrow> string option
     \<Rightarrow> string option \<Rightarrow> bool" where
  "usable_search_term target_word material author affil issn cdjournal =
     ((target_word \<noteq> None \<and> strip (the target_word) \<noteq> []) \<or> truthy material \<or> truthy author
      \<or> truthy affil \<or> truthy issn \<or> truthy cdjournal)"

text \<open>
  One pass through the body of the loop, given the response to its request: either the
  loop is left, or it goes on with a new cursor, total and accumulator. \<open>loop\<close> is
  defined from the source in one piece; \<open>loop_step\<close> below shows that it is the
  iteration of this step.
\<close>

datatype step_result = Stop loop_exit | Next int "int option" "raw_record list"

definition page_step ::
  "int \<Rightarrow> int \<Rightarrow> int \<Rightarrow> int option \<Rightarrow> raw_record list \<Rightarrow> response \<Rightarrow> step_result" where
  "page_step step max_records start_idx captured all_data r =
     (case r of
        RequestException e \<Rightarrow> Stop (Raise (JStageAPIError (''Request failed: '' @ e)))
      | NotXml \<Rightarrow> Stop (Raise (JStageAPIError ''Failed to parse XML response''))
      | Xml root \<Rightarrow>
          if get_result_status root = Some ''ERR_001'' then Stop ReturnEmpty
          else
            (case (if captured = None then get_total_results_first root else Inr captured) of
               Inl e \<Rightarrow> Stop (Raise e)
             | Inr captured' \<Rightarrow>
                 if xpath_nodes root ''//atom:entry'' = []
                 then Stop (Break ZeroEntries captured' all_data)
                 else if length (append_entries max_records all_data
                                   (xpath_nodes root ''//atom:entry'')) = length all_data
                 then Stop (Break NoProgress captured'
                              (append_entries max_records all_data
                                 (xpath_nodes root ''//atom:entry'')))
                 else if int (length (append_entries max_records all_data
                                        (xpath_nodes root ''//atom:entry''))) \<ge> max_records
                 then Stop (Break MaxRecords captured'
                              (append_entries max_records all_data
                                 (xpath_nodes root ''//atom:entry'')))
                 else if captured' \<noteq> None \<and> start_idx + step > the captured'
                 then Stop (Break PastTotal captured'
                              (append_entries max_records all_data
                                 (xpath_nodes root ''//atom:entry'')))
                 else Next (start_idx + step) captured'
                        (append_entries max_records all_data
                           (xpath_nodes root ''//atom:entry''))))"

text \<open>The total captured after some pages, given the one captured before them.\<close>

definition seen :: "int option \<Rightarrow> response list \<Rightarrow> int option" where
  "seen captured rs = (case captured of None \<Rightarrow> first_reported rs | Some t \<Rightarrow> Some t)"

section \<open>Example documents and sessions\<close>

definition leaf :: "string \<Rightarrow> element" where
  "leaf t = Element (Some t) (\<lambda>query. []) (\<lambda>query. [])"

definition entry_with_doi :: "string \<Rightarrow> element" where
  "entry_with_doi d =
     Element None (\<lambda>query. if query = ''prism:doi'' then [leaf d] else []) (\<lambda>query. [])"

definition bare_entry :: element where
  "bare_entry = Element None (\<lambda>query. []) (\<lambda>query. [])"

definition document :: "string list \<Rightarrow> string list \<Rightarrow> element list \<Rightarrow> element" where
  "document statuses totals entries =
     Element None
       (\<lambda>query. if query = ''//atom:entry'' then entries else [])
       (\<lambda>query.
          if query = ''//*[local-name()='result']/*[local-name()='status']/text()'' then statuses
          else if query = ''//opensearch:totalResults/text()'' then totals
          else if query = ''//*[local-name()='totalResults']/text()'' then totals
          else [])"

definition digits_cast :: "string \<Rightarrow> int option" where
  "digits_cast s = map_option int (parse_unsigned s)"

definition three_per_page :: http_session where
  "three_per_page n url =
     Xml (document [] [] [entry_with_doi ''10.1234/abcd'', bare_entry, bare_entry])"

definition total_then_sentinel :: http_session where
  "total_then_sentinel n url =
     (if n = 0 then Xml (document [] [''10''] [bare_entry])
      else Xml (document [''ERR_001''] [] []))"

definition total_without_entries :: http_session where
  "total_without_entries n url = Xml (document [] [''7''] [])"

definition total_not_a_number :: http_session where
  "total_not_a_number n url = Xml (document [] [''abc''] [bare_entry])"

definition total_then_no_entries :: http_session where
  "total_then_no_entries n url =
     (if n = 0 then Xml (document [] [''10''] [bare_entry, bare_entry])
      else Xml (document [] [] []))"

definition total_of_four :: http_session where
  "total_of_four n url = Xml (document [] [''4''] [bare_entry, bare_entry, bare_entry])"

section \<open>The loop, one page at a time\<close>

declare loop.simps [simp del]

lemma loop_step:
  "loop session base_params step max_records start_idx captured all_data done =
     (let r = session (length done) (page_url (page_params base_params step start_idx));
          done' = done @ [(page_params base_params step start_idx, r)]
      in case page_step step max_records start_idx captured all_data r of
           Stop ex \<Rightarrow> (done', ex)
         | Next start_idx' captured' all_data' \<Rightarrow>
             loop session base_params step max_records start_idx' captured' all_data' done')"
  apply (subst loop.simps)
  apply (simp only: page_step_def page_params_def page_url_def Let_def)
  apply (auto split: response.splits sum.splits)
  done

lemma append_entries_eq:
  "append_entries m acc es =
     acc @ map entry_record (take (max 1 (nat (m - int (length acc)))) es)"
proof (induction es arbitrary: acc)
  case Nil
  show ?case by simp
next
  case (Cons e es)
  show ?case
  proof (cases "int (length acc) + 1 \<ge> m")
    case True
    then have "max 1 (nat (m - int (length acc))) = 1" by linarith
    with True show ?thesis by (simp add: Let_def)
  next
    case False
    then have "max 1 (nat (m - int (length acc))) = Suc (max 1 (nat (m - (int (length acc) + 1))))"
      by linarith
    with False show ?thesis by (simp add: Let_def Cons.IH add.commute)
  qed
qed

lemma append_entries_take:
  assumes "int (length acc) < m"
  shows "append_entries m acc es = take (nat m) (acc @ map entry_record es)"
proof -
  from assms have "max 1 (nat (m - int (length acc))) = nat m - length acc" by linarith
  with assms show ?thesis by (simp add: append_entries_eq take_map)
qed

lemma append_entries_all:
  assumes "int (length (append_entries m acc es)) < m"
  shows "append_entries m acc es = acc @ map entry_record es"
proof -
  from assms have lt: "int (length acc) < m" by (simp add: append_entries_eq)
  from assms have "length (take (nat m) (acc @ map entry_record es)) < nat m"
    by (simp add: append_entries_take [OF lt])
  then have "take (nat m) (acc @ map entry_record es) = acc @ map entry_record es"
    by (metis length_take min_less_iff_conj nat_neq_iff take_all_iff linorder_not_le)
  then show ?thesis by (simp add: append_entries_take [OF lt])
qed

lemma append_entries_grows:
  "es \<noteq> [] \<Longrightarrow> length acc < length (append_entries m acc es)"
  by (cases es) (simp_all add: append_entries_eq)


lemma reported_total_Xml:
  "get_total_results_first root = Inr c \<Longrightarrow> reported_total (Xml root) = c"
  by (cases c) (simp_all add: reported_total_def)

lemma page_step_sentinel:
  "(page_step step m start captured acc r = Stop ReturnEmpty) = is_sentinel r"
  by (auto simp: page_step_def is_sentinel_def split: response.splits sum.splits if_splits)

lemma page_step_Next:
  assumes "page_step step m start captured acc r = Next start' captured' acc'"
  shows "start' = start + step"
    and "\<not> is_sentinel r"
    and "page_entries r \<noteq> []"
    and "acc' = acc @ map entry_record (page_entries r)"
    and "int (length acc') < m"
    and "captured' = (case captured of None \<Rightarrow> reported_total r | Some t \<Rightarrow> Some t)"
    and "captured' = None \<or> start' \<le> the captured'"
proof -
  from assms obtain root where r: "r = Xml root"
    by (cases r) (simp_all add: page_step_def)
  let ?es = "xpath_nodes root ''//atom:entry''"
  from assms r have acc': "acc' = append_entries m acc ?es" and len: "int (length acc') < m"
    and st: "start' = start + step" and ns: "get_result_status root \<noteq> Some ''ERR_001''"
    and es: "?es \<noteq> []"
    and cap: "(if captured = None then get_total_results_first root else Inr captured) = Inr captured'"
    and past: "captured' = None \<or> start' \<le> the captured'"
    by (auto simp: page_step_def split: sum.splits if_splits)
  show "start' = start + step" by (rule st)
  show "\<not> is_sentinel r" using ns r by (simp add: is_sentinel_def)
  show "page_entries r \<noteq> []" using es r by (simp add: page_entries_def)
  show "acc' = acc @ map entry_record (page_entries r)"
    using append_entries_all [of m acc ?es] len acc' r by (simp add: page_entries_def)
  show "int (length acc') < m" by (rule len)
  show "captured' = (case captured of None \<Rightarrow> reported_total r | Some t \<Rightarrow> Some t)"
    using cap r by (cases captured) (auto simp: reported_total_Xml)
  show "captured' = None \<or> start' \<le> the captured'" by (rule past)
qed

lemma page_step_Break:
  assumes "page_step step m start captured acc r = Stop (Break reason captured' acc')"
  shows "\<not> is_sentinel r"
    and "int (length acc) < m \<Longrightarrow> acc' = take (nat m) (acc @ map entry_record (page_entries r))"
    and "captured' = (case captured of None \<Rightarrow> reported_total r | Some t \<Rightarrow> Some t)"
    and "reason \<noteq> NoProgress"
    and "(reason = ZeroEntries) = (page_entries r = [])"
    and "reason = MaxRecords \<Longrightarrow> m \<le> int (length acc')"
    and "reason = PastTotal \<Longrightarrow> captured' \<noteq> None \<and> the captured' < start + step"
proof -
  from assms obtain root where r: "r = Xml root"
    by (cases r) (simp_all add: page_step_def)
  let ?es = "xpath_nodes root ''//atom:entry''"
  from assms r have ns: "get_result_status root \<noteq> Some ''ERR_001''"
    and cap: "(if captured = None then get_total_results_first root else Inr captured) = Inr captured'"
    by (auto simp: page_step_def split: sum.splits if_splits)
  from assms r ns cap have body:
    "(if ?es = [] then Break ZeroEntries captured' acc
      else if length (append_entries m acc ?es) = length acc
      then Break NoProgress captured' (append_entries m acc ?es)
      else if int (length (append_entries m acc ?es)) \<ge> m
      then Break MaxRecords captured' (append_entries m acc ?es)
      else Break PastTotal captured' (append_entries m acc ?es)) = Break reason captured' acc'
     \<and> (reason = PastTotal \<longrightarrow> captured' \<noteq> None \<and> the captured' < start + step)"
    by (auto simp: page_step_def split: sum.splits if_splits)
  have grows: "?es \<noteq> [] \<Longrightarrow> length (append_entries m acc ?es) \<noteq> length acc"
    using append_entries_grows [of ?es acc m] by simp
  have acc': "acc' = append_entries m acc ?es"
    using body by (auto split: if_splits)
  show "\<not> is_sentinel r" using ns r by (simp add: is_sentinel_def)
  show "int (length acc) < m \<Longrightarrow> acc' = take (nat m) (acc @ map entry_record (page_entries r))"
    using acc' r by (simp add: append_entries_take page_entries_def)
  show "captured' = (case captured of None \<Rightarrow> reported_total r | Some t \<Rightarrow> Some t)"
    using cap r by (cases captured) (auto simp: reported_total_Xml)
  show "reason \<noteq> NoProgress" using body grows by (auto split: if_splits)
  show "(reason = ZeroEntries) = (page_entries r = [])"
    using body r by (auto simp: page_entries_def split: if_splits)
  show "reason = MaxRecords \<Longrightarrow> m \<le> int (length acc')"
    using body grows by (auto split: if_splits)
  show "reason = PastTotal \<Longrightarrow> captured' \<noteq> None \<and> the captured' < start + step"
    using body by simp
qed

text \<open>The runs of the loop, by induction on the room left in the accumulator.\<close>

lemma loop_rule:
  assumes run: "loop session base_params step m start captured acc done = (tr, ex)"
    and stop: "\<And>start captured acc n r ex.
        r = session n (page_url (page_params base_params step start)) \<Longrightarrow>
        page_step step m start captured acc r = Stop ex \<Longrightarrow>
        P start captured acc n [(page_params base_params step start, r)] ex"
    and "next": "\<And>start captured acc n r start' captured' acc' new ex.
        r = session n (page_url (page_params base_params step start)) \<Longrightarrow>
        page_step step m start captured acc r = Next start' captured' acc' \<Longrightarrow>
        new \<noteq> [] \<Longrightarrow>
        P start' captured' acc' (Suc n) new ex \<Longrightarrow>
        P start captured acc n ((page_params base_params step start, r) # new) ex"
  shows "\<exists>new. tr = done @ new \<and> new \<noteq> [] \<and> P start captured acc (length done) new ex"
  using run
proof (induction "nat (m - int (length acc))" arbitrary: start captured acc "done"
         rule: less_induct)
  case less
  let ?ps = "page_params base_params step start"
  let ?r = "session (length done) (page_url ?ps)"
  show ?case
  proof (cases "page_step step m start captured acc ?r")
    case (Stop ex')
    with less.prems have "tr = done @ [(?ps, ?r)]" and "ex = ex'"
      by (simp_all add: loop_step [of session base_params step m start captured acc "done"] Let_def)
    with stop [OF refl Stop] show ?thesis by auto
  next
    case (Next start' captured' acc')
    with less.prems have rec:
      "loop session base_params step m start' captured' acc' (done @ [(?ps, ?r)]) = (tr, ex)"
      by (simp add: loop_step [of session base_params step m start captured acc "done"] Let_def)
    have "length acc < length acc'" and "int (length acc') < m"
      using page_step_Next(3,4,5) [OF Next] by auto
    then have "nat (m - int (length acc')) < nat (m - int (length acc))" by linarith
    from less.hyps [OF this rec] obtain new where
      new: "tr = (done @ [(?ps, ?r)]) @ new" "new \<noteq> []"
        "P start' captured' acc' (length (done @ [(?ps, ?r)])) new ex"
      by blast
    from "next" [OF refl Next new(2)] new(3)
    have "P start captured acc (length done) ((?ps, ?r) # new) ex" by simp
    with new(1) show ?thesis by auto
  qed
qed

lemma loop_requests:
  assumes "loop session base_params step m start captured acc done = (tr, ex)"
  shows "\<exists>new. tr = done @ new \<and> new \<noteq> [] \<and>
           (\<forall>k < length new. new ! k =
              (page_params base_params step (start + int k * step),
               session (length done + k)
                 (page_url (page_params base_params step (start + int k * step)))))"
proof (rule loop_rule [OF assms])
  fix start :: int and captured :: "int option" and acc :: "raw_record list" and n r ex
  assume "r = session n (page_url (page_params base_params step start))"
  then show "\<forall>k<length [(page_params base_params step start, r)].
      [(page_params base_params step start, r)] ! k =
        (page_params base_params step (start + int k * step),
         session (n + k) (page_url (page_params base_params step (start + int k * step))))"
    by simp
next
  fix start :: int and captured :: "int option" and acc :: "raw_record list" and n r start'
    and captured' :: "int option" and acc' :: "raw_record list" and new :: trace and ex
  assume r: "r = session n (page_url (page_params base_params step start))"
    and st: "page_step step m start captured acc r = Next start' captured' acc'"
    and ih: "\<forall>k<length new. new ! k =
        (page_params base_params step (start' + int k * step),
         session (Suc n + k) (page_url (page_params base_params step (start' + int k * step))))"
  have start': "start' = start + step" by (rule page_step_Next(1) [OF st])
  show "\<forall>k<length ((page_params base_params step start, r) # new).
      ((page_params base_params step start, r) # new) ! k =
        (page_params base_params step (start + int k * step),
         session (n + k) (page_url (page_params base_params step (start + int k * step))))"
  proof (intro allI impI)
    fix k assume k: "k < length ((page_params base_params step start, r) # new)"
    show "((page_params base_params step start, r) # new) ! k =
        (page_params base_params step (start + int k * step),
         session (n + k) (page_url (page_params base_params step (start + int k * step))))"
    proof (cases k)
      case 0
      with r show ?thesis by simp
    next
      case (Suc j)
      with k have "j < length new" by simp
      with ih have "new ! j =
        (page_params base_params step (start' + int j * step),
         session (Suc n + j) (page_url (page_params base_params step (start' + int j * step))))"
        by blast
      moreover have "start' + int j * step = start + int (Suc j) * step"
        by (simp add: start' algebra_simps)
      ultimately show ?thesis using Suc by simp
    qed
  qed
qed

lemma loop_accumulates:
  assumes "loop session base_params step m start captured acc done = (tr, ex)"
  shows "\<exists>new. tr = done @ new \<and> new \<noteq> [] \<and>
           (int (length acc) < m \<longrightarrow>
              (\<forall>reason c a. ex = Break reason c a \<longrightarrow>
                 a = take (nat m) (acc @ records_of (map snd new))) \<and>
              int (length acc + length (records_of (butlast (map snd new)))) < m)"
proof (rule loop_rule [OF assms])
  fix start :: int and captured :: "int option" and acc :: "raw_record list" and n r ex
  assume "page_step step m start captured acc r = Stop ex"
  then show "int (length acc) < m \<longrightarrow>
      (\<forall>reason c a. ex = Break reason c a \<longrightarrow>
         a = take (nat m) (acc @ records_of (map snd [(page_params base_params step start, r)]))) \<and>
      int (length acc +
           length (records_of (butlast (map snd [(page_params base_params step start, r)])))) < m"
    by (auto simp: records_of_def dest: page_step_Break(2))
next
  fix start :: int and captured :: "int option" and acc :: "raw_record list" and n r start'
    and captured' :: "int option" and acc' :: "raw_record list" and new :: trace and ex
  assume st: "page_step step m start captured acc r = Next start' captured' acc'"
    and ne: "new \<noteq> []"
    and ih: "int (length acc') < m \<longrightarrow>
      (\<forall>reason c a. ex = Break reason c a \<longrightarrow>
         a = take (nat m) (acc' @ records_of (map snd new))) \<and>
      int (length acc' + length (records_of (butlast (map snd new)))) < m"
  have acc': "acc' = acc @ map entry_record (page_entries r)" and lt: "int (length acc') < m"
    using page_step_Next(4,5) [OF st] by auto
  from ne have bl: "butlast (map snd ((page_params base_params step start, r) # new))
      = r # butlast (map snd new)" by simp
  have eq: "acc @ records_of (map snd ((page_params base_params step start, r) # new))
      = acc' @ records_of (map snd new)"
    by (simp add: acc' records_of_def)
  have len: "length acc +
      length (records_of (butlast (map snd ((page_params base_params step start, r) # new))))
      = length acc' + length (records_of (butlast (map snd new)))"
    unfolding bl by (simp add: acc' records_of_def)
  show "int (length acc) < m \<longrightarrow>
      (\<forall>reason c a. ex = Break reason c a \<longrightarrow>
         a = take (nat m) (acc @ records_of (map snd ((page_params base_params step start, r) # new)))) \<and>
      int (length acc +
           length (records_of (butlast (map snd ((page_params base_params step start, r) # new))))) < m"
    unfolding eq len using ih lt by blast
qed

lemma loop_exits:
  assumes "loop session base_params step m start captured acc done = (tr, ex)"
  shows "\<exists>new. tr = done @ new \<and> new \<noteq> [] \<and>
           ((ex = ReturnEmpty) = is_sentinel (snd (last new)) \<and>
            (\<forall>x \<in> set (butlast new). \<not> is_sentinel (snd x)) \<and>
            (\<forall>c a. ex \<noteq> Break NoProgress c a) \<and>
            (\<forall>reason c a. ex = Break reason c a \<longrightarrow>
               (reason = ZeroEntries) = (page_entries (snd (last new)) = [])))"
proof (rule loop_rule [OF assms])
  fix start :: int and captured :: "int option" and acc :: "raw_record list" and n r ex
  assume st: "page_step step m start captured acc r = Stop ex"
  have "(ex = ReturnEmpty) = is_sentinel r"
    using st page_step_sentinel [of step m start captured acc r] by auto
  moreover have "\<forall>c a. ex \<noteq> Break NoProgress c a"
    using st page_step_Break(4) by blast
  moreover have "\<forall>reason c a. ex = Break reason c a \<longrightarrow>
      (reason = ZeroEntries) = (page_entries r = [])"
    using st page_step_Break(5) by blast
  ultimately show "(ex = ReturnEmpty) =
      is_sentinel (snd (last [(page_params base_params step start, r)])) \<and>
      (\<forall>x \<in> set (butlast [(page_params base_params step start, r)]). \<not> is_sentinel (snd x)) \<and>
      (\<forall>c a. ex \<noteq> Break NoProgress c a) \<and>
      (\<forall>reason c a. ex = Break reason c a \<longrightarrow>
         (reason = ZeroEntries) =
         (page_entries (snd (last [(page_params base_params step start, r)])) = []))"
    by simp
next
  fix start :: int and captured :: "int option" and acc :: "raw_record list" and n r start'
    and captured' :: "int option" and acc' :: "raw_record list" and new :: trace and ex
  assume st: "page_step step m start captured acc r = Next start' captured' acc'"
    and ne: "new \<noteq> []"
    and ih: "(ex = ReturnEmpty) = is_sentinel (snd (last new)) \<and>
      (\<forall>x \<in> set (butlast new). \<not> is_sentinel (snd x)) \<and>
      (\<forall>c a. ex \<noteq> Break NoProgress c a) \<and>
      (\<forall>reason c a. ex = Break reason c a \<longrightarrow>
         (reason = ZeroEntries) = (page_entries (snd (last new)) = []))"
  have "\<not> is_sentinel r" by (rule page_step_Next(2) [OF st])
  with ih ne show "(ex = ReturnEmpty) =
      is_sentinel (snd (last ((page_params base_params step start, r) # new))) \<and>
      (\<forall>x \<in> set (butlast ((page_params base_params step start, r) # new)).
         \<not> is_sentinel (snd x)) \<and>
      (\<forall>c a. ex \<noteq> Break NoProgress c a) \<and>
      (\<forall>reason c a. ex = Break reason c a \<longrightarrow>
         (reason = ZeroEntries) =
         (page_entries (snd (last ((page_params base_params step start, r) # new))) = []))"
    by simp
qed

lemma seen_Cons:
  "seen captured (r # rs) =
     seen (case captured of None \<Rightarrow> reported_total r | Some t \<Rightarrow> Some t) rs"
  by (cases captured; cases "reported_total r") (simp_all add: seen_def)

lemma loop_captured:
  assumes "loop session base_params step m start captured acc done = (tr, ex)"
  shows "\<exists>new. tr = done @ new \<and> new \<noteq> [] \<and>
           ((\<forall>reason c a. ex = Break reason c a \<longrightarrow> c = seen captured (map snd new)) \<and>
            (\<forall>k t. Suc k < length new \<longrightarrow> seen captured (take (Suc k) (map snd new)) = Some t
                \<longrightarrow> start + int (Suc k) * step \<le> t))"
proof (rule loop_rule [OF assms])
  fix start :: int and captured :: "int option" and acc :: "raw_record list" and n r ex
  assume st: "page_step step m start captured acc r = Stop ex"
  have "c = seen captured [r]" if "ex = Break reason c a" for reason c a
  proof -
    from st that have "page_step step m start captured acc r = Stop (Break reason c a)" by simp
    from page_step_Break(3) [OF this] show ?thesis
      by (cases captured; cases "reported_total r") (simp_all add: seen_def)
  qed
  then show "(\<forall>reason c a. ex = Break reason c a \<longrightarrow>
        c = seen captured (map snd [(page_params base_params step start, r)])) \<and>
      (\<forall>k t. Suc k < length [(page_params base_params step start, r)] \<longrightarrow>
         seen captured (take (Suc k) (map snd [(page_params base_params step start, r)])) = Some t
         \<longrightarrow> start + int (Suc k) * step \<le> t)"
    by simp
next
  fix start :: int and captured :: "int option" and acc :: "raw_record list" and n r start'
    and captured' :: "int option" and acc' :: "raw_record list" and new :: trace and ex
  assume st: "page_step step m start captured acc r = Next start' captured' acc'"
    and ne: "new \<noteq> []"
    and ih: "(\<forall>reason c a. ex = Break reason c a \<longrightarrow> c = seen captured' (map snd new)) \<and>
      (\<forall>k t. Suc k < length new \<longrightarrow> seen captured' (take (Suc k) (map snd new)) = Some t
          \<longrightarrow> start' + int (Suc k) * step \<le> t)"
  have start': "start' = start + step" by (rule page_step_Next(1) [OF st])
  have cap: "captured' = (case captured of None \<Rightarrow> reported_total r | Some t \<Rightarrow> Some t)"
    by (rule page_step_Next(6) [OF st])
  have past: "captured' = None \<or> start' \<le> the captured'" by (rule page_step_Next(7) [OF st])
  have sc: "seen captured (r # rs) = seen captured' rs" for rs
    by (simp add: seen_Cons cap)
  have one: "seen captured [r] = captured'"
    by (cases captured) (simp_all add: seen_def cap split: option.splits)
  have "start + int (Suc k) * step \<le> t"
    if k: "Suc k < length ((page_params base_params step start, r) # new)"
      and t: "seen captured (take (Suc k) (map snd ((page_params base_params step start, r) # new)))
               = Some t" for k t
  proof (cases k)
    case 0
    with t have "captured' = Some t" by (simp add: one)
    with past have "start' \<le> t" by simp
    with 0 start' show ?thesis by simp
  next
    case (Suc j)
    with k have j: "Suc j < length new" by simp
    from t Suc have "seen captured' (take (Suc j) (map snd new)) = Some t"
      by (simp add: sc)
    with ih j have "start' + int (Suc j) * step \<le> t" by blast
    with Suc start' show ?thesis by (simp add: algebra_simps)
  qed
  with ih show "(\<forall>reason c a. ex = Break reason c a \<longrightarrow>
        c = seen captured (map snd ((page_params base_params step start, r) # new))) \<and>
      (\<forall>k t. Suc k < length ((page_params base_params step start, r) # new) \<longrightarrow>
         seen captured (take (Suc k) (map snd ((page_params base_params step start, r) # new)))
           = Some t
         \<longrightarrow> start + int (Suc k) * step \<le> t)"
    by (simp add: sc)
qed

section \<open>From the loop to \<open>fetch\<close>\<close>

lemma fetch_run_cases:
  assumes "fetch_run target_word year field m step session material author affil issn cdjournal
             = (tr, ex)"
  shows "(tr = [] \<and> (\<exists>msg. ex = Raise (ValueError msg))) \<or>
         (field \<in> ALLOWED_FIELDS \<and> 0 < m \<and> 0 < step \<and>
          (\<exists>k \<in> SEARCH_PARAM_KEYS. k \<in> dict_keys
             (build_base_params target_word year field material author affil issn cdjournal)) \<and>
          loop session
            (build_base_params target_word year field material author affil issn cdjournal)
            step m 1 None [] [] = (tr, ex))"
  using assms by (auto simp: fetch_run_def Let_def split: if_splits)

lemma fetch_finish:
  "fetch_run target_word year field m step session material author affil issn cdjournal = (tr, ex)
   \<Longrightarrow> fetch cast_int32 target_word year field m step session material author affil issn cdjournal
       = finish cast_int32 ex"
  by (simp add: fetch_def)

lemma rows_build_frame: "rows (build_frame cast_int32 a) = map (with_columns_row cast_int32) a"
  by (simp add: build_frame_def empty_frame_def)

lemma finish_Inr:
  assumes "finish cast_int32 ex = Inr res"
  shows "(ex = ReturnEmpty \<and> res = \<lparr> df = empty_frame, total_results = Some 0 \<rparr>) \<or>
         (\<exists>reason c a. ex = Break reason c a \<and> df res = build_frame cast_int32 a \<and>
            total_results res = (if c = None then Some (int (length a)) else c))"
  using assms by (cases ex) (auto simp: finish_def)

lemma append_entries_le:
  assumes "int (length acc) < m"
  shows "int (length (append_entries m acc es)) \<le> m"
proof -
  have "length (take (nat m) (acc @ map entry_record es)) \<le> nat m" by simp
  then have "int (length (take (nat m) (acc @ map entry_record es))) \<le> m"
    using assms by linarith
  then show ?thesis by (simp only: append_entries_take [OF assms])
qed

lemma fetch_run_new:
  assumes "fetch_run target_word year field m step session material author affil issn cdjournal
             = (tr, ex)" and "tr \<noteq> []"
  shows "loop session
            (build_base_params target_word year field material author affil issn cdjournal)
            step m 1 None [] [] = (tr, ex)"
    and "0 < m" and "0 < step" and "field \<in> ALLOWED_FIELDS"
  using fetch_run_cases [OF assms(1)] assms(2) by blast+

lemma fetch_Inr_loop:
  assumes run: "fetch_run target_word year field m step session material author affil issn
                  cdjournal = (tr, ex)"
    and res: "fetch cast_int32 target_word year field m step session material author affil issn
                cdjournal = Inr res"
  shows "tr \<noteq> []" and "finish cast_int32 ex = Inr res"
proof -
  from res show fin: "finish cast_int32 ex = Inr res" by (simp add: fetch_finish [OF run])
  show "tr \<noteq> []"
  proof
    assume "tr = []"
    with fetch_run_cases [OF run] loop_exits [of session _ step m 1 None "[]" "[]" tr ex]
    obtain msg where "ex = Raise (ValueError msg)" by auto
    with fin show False by (simp add: finish_def)
  qed
qed

lemma run_facts:
  assumes run: "fetch_run target_word year field m step session material author affil issn
                  cdjournal = (tr, ex)"
    and ne: "tr \<noteq> []"
  shows "(ex = ReturnEmpty) = is_sentinel (snd (last tr))"
    and "\<forall>x \<in> set (butlast tr). \<not> is_sentinel (snd x)"
    and "\<forall>reason c a. ex = Break reason c a \<longrightarrow>
           (reason = ZeroEntries) = (page_entries (snd (last tr)) = [])"
    and "\<forall>reason c a. ex = Break reason c a \<longrightarrow> c = first_reported (map snd tr)"
    and "\<forall>reason c a. ex = Break reason c a \<longrightarrow> a = take (nat m) (records_of (map snd tr))"
    and "int (length (records_of (butlast (map snd tr)))) < m"
    and "\<forall>c a. ex \<noteq> Break NoProgress c a"
proof -
  note lp = fetch_run_new(1) [OF run ne]
  from loop_exits [OF lp]
  show "(ex = ReturnEmpty) = is_sentinel (snd (last tr))"
    and "\<forall>x \<in> set (butlast tr). \<not> is_sentinel (snd x)"
    and "\<forall>reason c a. ex = Break reason c a \<longrightarrow>
           (reason = ZeroEntries) = (page_entries (snd (last tr)) = [])"
    and "\<forall>c a. ex \<noteq> Break NoProgress c a"
    by simp_all
  from loop_captured [OF lp]
  show "\<forall>reason c a. ex = Break reason c a \<longrightarrow> c = first_reported (map snd tr)"
    by (simp add: seen_def)
  from loop_accumulates [OF lp] fetch_run_new(2) [OF run ne]
  show "\<forall>reason c a. ex = Break reason c a \<longrightarrow> a = take (nat m) (records_of (map snd tr))"
    and "int (length (records_of (butlast (map snd tr)))) < m"
    by simp_all
qed

lemma records_of_no_last:
  assumes "rs \<noteq> []" and "page_entries (last rs) = []"
  shows "records_of rs = records_of (butlast rs)"
proof -
  from assms(1) have "rs = butlast rs @ [last rs]" by simp
  then have "records_of rs = records_of (butlast rs @ [last rs])" by simp
  also have "\<dots> = records_of (butlast rs)" using assms(2) by (simp add: records_of_def)
  finally show ?thesis .
qed

lemma dict_keys_dict_set: "dict_keys (dict_set d k v) = insert k (dict_keys d)"
  by (induction d k v rule: dict_set.induct) (auto simp: dict_keys_def)

lemma map_of_dict_set: "map_of (dict_set d k v) = (map_of d)(k \<mapsto> v)"
  by (induction d k v rule: dict_set.induct) (auto simp: fun_eq_iff)

lemma dict_keys_page_params:
  "dict_keys (page_params base_params step start) = dict_keys base_params \<union> {''start'', ''count''}"
  by (auto simp: page_params_def dict_keys_dict_set)

lemma map_of_page_params:
  "map_of (page_params base_params step start) ''start'' = Some (str_int start)"
  "map_of (page_params base_params step start) ''count'' = Some (str_int step)"
  by (simp_all add: page_params_def map_of_dict_set)

lemma no_term_no_key:
  assumes "\<not> usable_search_term target_word material author affil issn cdjournal"
  shows "\<not> (\<exists>k \<in> SEARCH_PARAM_KEYS. k \<in> dict_keys
              (build_base_params target_word year field material author affil issn cdjournal))"
  using assms
  by (auto simp: usable_search_term_def build_base_params_def Let_def dict_keys_def
      SEARCH_PARAM_KEYS_def)

lemma run_requests:
  assumes run: "fetch_run target_word year field m step session material author affil issn
                  cdjournal = (tr, ex)"
    and k: "k < length tr"
  shows "tr ! k =
    (page_params (build_base_params target_word year field material author affil issn cdjournal)
       step (1 + int k * step),
     session k (page_url (page_params
        (build_base_params target_word year field material author affil issn cdjournal)
        step (1 + int k * step))))"
proof -
  from k have "tr \<noteq> []" by auto
  from loop_requests [OF fetch_run_new(1) [OF run this]] k show ?thesis by simp
qed

lemma fetch_result_cases:
  assumes run: "fetch_run target_word year field m step session material author affil issn
                  cdjournal = (tr, ex)"
    and res: "fetch cast_int32 target_word year field m step session material author affil issn
                cdjournal = Inr res"
  shows "(is_sentinel (snd (last tr)) \<and> res = \<lparr> df = empty_frame, total_results = Some 0 \<rparr>) \<or>
         (\<not> is_sentinel (snd (last tr)) \<and>
          (\<exists>a. a = take (nat m) (records_of (map snd tr)) \<and>
               df res = build_frame cast_int32 a \<and>
               total_results res =
                 (case first_reported (map snd tr) of
                    None \<Rightarrow> Some (int (length a)) | Some t \<Rightarrow> Some t)))"
proof -
  note ne = fetch_Inr_loop(1) [OF assms] and fin = fetch_Inr_loop(2) [OF assms]
  note facts = run_facts [OF run ne]
  from finish_Inr [OF fin] show ?thesis
  proof
    assume "ex = ReturnEmpty \<and> res = \<lparr>df = empty_frame, total_results = Some 0\<rparr>"
    with facts(1) show ?thesis by simp
  next
    assume "\<exists>reason c a. ex = Break reason c a \<and> df res = build_frame cast_int32 a \<and>
              total_results res = (if c = None then Some (int (length a)) else c)"
    then obtain reason c a where br: "ex = Break reason c a"
      and frame: "df res = build_frame cast_int32 a"
      and tot: "total_results res = (if c = None then Some (int (length a)) else c)"
      by blast
    from facts(1) br have ns: "\<not> is_sentinel (snd (last tr))" by simp
    from facts(4) br have c: "c = first_reported (map snd tr)" by blast
    from facts(5) br have a: "a = take (nat m) (records_of (map snd tr))" by blast
    from tot c have "total_results res =
        (case first_reported (map snd tr) of None \<Rightarrow> Some (int (length a)) | Some t \<Rightarrow> Some t)"
      by (cases "first_reported (map snd tr)") simp_all
    with ns a frame show ?thesis by blast
  qed
qed

lemma total_text_int:
  "total_text root = Some t \<Longrightarrow> get_total_results_first root = int_or_raise t"
  by (auto simp: total_text_def get_total_results_first_def Let_def split: if_splits)

lemma dict_keys_base:
  "dict_keys (build_base_params target_word year field material author affil issn cdjournal) =
     {''service'', ''pubyearfrom''}
     \<union> (if target_word \<noteq> None \<and> strip (the target_word) \<noteq> [] then {field} else {})
     \<union> (if truthy material then {''material''} else {})
     \<union> (if truthy author then {''author''} else {})
     \<union> (if truthy affil then {''affil''} else {})
     \<union> (if truthy issn then {''issn''} else {})
     \<union> (if truthy cdjournal then {''cdjournal''} else {})"
proof -
  have step: "dict_keys (if c then dict_set d k v else d) = dict_keys d \<union> (if c then {k} else {})"
    for c d k v
    by (simp add: dict_keys_dict_set)
  have start: "dict_keys [(''service'', ''3''), (''pubyearfrom'', str_int year)]
      = {''service'', ''pubyearfrom''}"
    by (simp add: dict_keys_def)
  show ?thesis
    unfolding build_base_params_def Let_def step start by (rule refl)
qed

lemma term_gives_key:
  assumes "usable_search_term target_word material author affil issn cdjournal"
    and "field \<in> ALLOWED_FIELDS"
  shows "\<exists>k \<in> SEARCH_PARAM_KEYS. k \<in> dict_keys
           (build_base_params target_word year field material author affil issn cdjournal)"
proof -
  from assms(2) have f: "field \<in> SEARCH_PARAM_KEYS"
    by (auto simp: ALLOWED_FIELDS_def SEARCH_PARAM_KEYS_def)
  have others: "''material'' \<in> SEARCH_PARAM_KEYS" "''author'' \<in> SEARCH_PARAM_KEYS"
    "''affil'' \<in> SEARCH_PARAM_KEYS" "''issn'' \<in> SEARCH_PARAM_KEYS"
    "''cdjournal'' \<in> SEARCH_PARAM_KEYS"
    by (simp_all add: SEARCH_PARAM_KEYS_def)
  from assms(1) consider "target_word \<noteq> None \<and> strip (the target_word) \<noteq> []"
    | "truthy material" | "truthy author" | "truthy affil" | "truthy issn" | "truthy cdjournal"
    by (auto simp: usable_search_term_def)
  then show ?thesis
  proof cases
    case 1 with f show ?thesis by (intro bexI [of _ field]) (simp_all add: dict_keys_base)
  next
    case 2 with others show ?thesis
      by (intro bexI [of _ "''material''"]) (simp_all add: dict_keys_base)
  next
    case 3 with others show ?thesis
      by (intro bexI [of _ "''author''"]) (simp_all add: dict_keys_base)
  next
    case 4 with others show ?thesis
      by (intro bexI [of _ "''affil''"]) (simp_all add: dict_keys_base)
  next
    case 5 with others show ?thesis
      by (intro bexI [of _ "''issn''"]) (simp_all add: dict_keys_base)
  next
    case 6 with others show ?thesis
      by (intro bexI [of _ "''cdjournal''"]) (simp_all add: dict_keys_base)
  qed
qed

lemma page_step_zero_entries:
  assumes "get_result_status root \<noteq> Some ''ERR_001''"
    and "xpath_nodes root ''//atom:entry'' = []"
    and "captured \<noteq> None \<or> (\<forall>e. get_total_results_first root \<noteq> Inl e)"
  shows "\<exists>c. page_step step m start captured acc (Xml root) = Stop (Break ZeroEntries c acc)"
  using assms by (cases "get_total_results_first root") (auto simp: page_step_def)

lemma seen_Nil: "seen captured [] = captured"
  by (cases captured) (simp_all add: seen_def)

lemma loop_zero_entries:
  assumes "loop session base_params step m start captured acc done = (tr, ex)"
  shows "\<exists>new. tr = done @ new \<and> new \<noteq> [] \<and>
           (\<forall>k root. k < length new \<longrightarrow> snd (new ! k) = Xml root \<longrightarrow>
              get_result_status root \<noteq> Some ''ERR_001'' \<longrightarrow>
              xpath_nodes root ''//atom:entry'' = [] \<longrightarrow>
              (seen captured (take k (map snd new)) \<noteq> None \<or>
               (\<forall>e. get_total_results_first root \<noteq> Inl e)) \<longrightarrow>
              Suc k = length new \<and> (\<exists>c a. ex = Break ZeroEntries c a))"
proof (rule loop_rule [OF assms])
  fix start :: int and captured :: "int option" and acc :: "raw_record list" and n r ex
  assume st: "page_step step m start captured acc r = Stop ex"
  have "Suc k = length [(page_params base_params step start, r)] \<and>
      (\<exists>c a. ex = Break ZeroEntries c a)"
    if "k < length [(page_params base_params step start, r)]"
      and "snd ([(page_params base_params step start, r)] ! k) = Xml root"
      and "get_result_status root \<noteq> Some ''ERR_001''"
      and "xpath_nodes root ''//atom:entry'' = []"
      and "seen captured (take k (map snd [(page_params base_params step start, r)])) \<noteq> None \<or>
           (\<forall>e. get_total_results_first root \<noteq> Inl e)" for k root
  proof -
    from that(1) have k: "k = 0" by simp
    with that(2) have r: "r = Xml root" by simp
    from that(5) k have "captured \<noteq> None \<or> (\<forall>e. get_total_results_first root \<noteq> Inl e)"
      by (simp add: seen_Nil)
    from page_step_zero_entries [OF that(3,4) this, of step m start acc] st r
    have "\<exists>c a. ex = Break ZeroEntries c a" by auto
    with k show ?thesis by simp
  qed
  then show "\<forall>k root. k < length [(page_params base_params step start, r)] \<longrightarrow>
      snd ([(page_params base_params step start, r)] ! k) = Xml root \<longrightarrow>
      get_result_status root \<noteq> Some ''ERR_001'' \<longrightarrow>
      xpath_nodes root ''//atom:entry'' = [] \<longrightarrow>
      (seen captured (take k (map snd [(page_params base_params step start, r)])) \<noteq> None \<or>
       (\<forall>e. get_total_results_first root \<noteq> Inl e)) \<longrightarrow>
      Suc k = length [(page_params base_params step start, r)] \<and>
      (\<exists>c a. ex = Break ZeroEntries c a)"
    by blast
next
  fix start :: int and captured :: "int option" and acc :: "raw_record list" and n r start'
    and captured' :: "int option" and acc' :: "raw_record list" and new :: trace and ex
  assume st: "page_step step m start captured acc r = Next start' captured' acc'"
    and ne: "new \<noteq> []"
    and ih: "\<forall>k root. k < length new \<longrightarrow> snd (new ! k) = Xml root \<longrightarrow>
      get_result_status root \<noteq> Some ''ERR_001'' \<longrightarrow>
      xpath_nodes root ''//atom:entry'' = [] \<longrightarrow>
      (seen captured' (take k (map snd new)) \<noteq> None \<or>
       (\<forall>e. get_total_results_first root \<noteq> Inl e)) \<longrightarrow>
      Suc k = length new \<and> (\<exists>c a. ex = Break ZeroEntries c a)"
  have cap: "captured' = (case captured of None \<Rightarrow> reported_total r | Some t \<Rightarrow> Some t)"
    by (rule page_step_Next(6) [OF st])
  have entries: "page_entries r \<noteq> []" by (rule page_step_Next(3) [OF st])
  have "Suc k = length ((page_params base_params step start, r) # new) \<and>
      (\<exists>c a. ex = Break ZeroEntries c a)"
    if "k < length ((page_params base_params step start, r) # new)"
      and "snd (((page_params base_params step start, r) # new) ! k) = Xml root"
      and "get_result_status root \<noteq> Some ''ERR_001''"
      and "xpath_nodes root ''//atom:entry'' = []"
      and "seen captured (take k (map snd ((page_params base_params step start, r) # new)))
             \<noteq> None \<or> (\<forall>e. get_total_results_first root \<noteq> Inl e)" for k root
  proof (cases k)
    case 0
    with that(2) have "r = Xml root" by simp
    with that(4) entries show ?thesis by (simp add: page_entries_def)
  next
    case (Suc j)
    with that(1) have j: "j < length new" by simp
    from that(2) Suc have page: "snd (new ! j) = Xml root" by simp
    from that(5) Suc have "seen captured' (take j (map snd new)) \<noteq> None \<or>
        (\<forall>e. get_total_results_first root \<noteq> Inl e)"
      by (simp add: seen_Cons cap)
    with ih j page that(3,4) have "Suc j = length new \<and> (\<exists>c a. ex = Break ZeroEntries c a)"
      by blast
    with Suc show ?thesis by simp
  qed
  then show "\<forall>k root. k < length ((page_params base_params step start, r) # new) \<longrightarrow>
      snd (((page_params base_params step start, r) # new) ! k) = Xml root \<longrightarrow>
      get_result_status root \<noteq> Some ''ERR_001'' \<longrightarrow>
      xpath_nodes root ''//atom:entry'' = [] \<longrightarrow>
      (seen captured (take k (map snd ((page_params base_params step start, r) # new)))
         \<noteq> None \<or> (\<forall>e. get_total_results_first root \<noteq> Inl e)) \<longrightarrow>
      Suc k = length ((page_params base_params step start, r) # new) \<and>
      (\<exists>c a. ex = Break ZeroEntries c a)"
    by blast
qed

section \<open>The properties of the specification\<close>

text \<open>
  C1. With a positive \<open>max_records\<close>, the accumulator that the loop leaves is the first
  \<open>max_records\<close> records of the pages requested, so the result never has more than
  \<open>max_records\<close> rows; the pages before the last one requested hold fewer than
  \<open>max_records\<close> records together, so no page is requested once the limit is reached;
  and the loop over the entries of one page never takes the accumulator beyond the limit.
\<close>

theorem max_records_bound:
  assumes "0 < max_records"
    and "fetch_run target_word year field max_records step session material author affil issn
           cdjournal = (tr, ex)"
  shows "(\<forall>reason c a. ex = Break reason c a \<longrightarrow>
            a = take (nat max_records) (records_of (map snd tr))) \<and>
         (\<forall>res. fetch cast_int32 target_word year field max_records step session material author
                   affil issn cdjournal = Inr res \<longrightarrow>
                 int (length (rows (df res))) \<le> max_records) \<and>
         int (length (records_of (butlast (map snd tr)))) < max_records \<and>
         (\<forall>acc es. int (length acc) < max_records \<longrightarrow>
            int (length (append_entries max_records acc es)) \<le> max_records)"
proof -
  let ?base = "build_base_params target_word year field material author affil issn cdjournal"
  have inner: "\<forall>acc es. int (length acc) < max_records \<longrightarrow>
      int (length (append_entries max_records acc es)) \<le> max_records"
    by (simp add: append_entries_le)
  have main: "(\<forall>reason c a. ex = Break reason c a \<longrightarrow>
            a = take (nat max_records) (records_of (map snd tr))) \<and>
         int (length (records_of (butlast (map snd tr)))) < max_records"
  proof (cases "tr = []")
    case True
    with fetch_run_cases [OF assms(2)] loop_accumulates [of session ?base step max_records 1 None "[]" "[]" tr ex]
    show ?thesis using assms(1) by (auto simp: records_of_def)
  next
    case False
    with fetch_run_cases [OF assms(2)]
    have "loop session ?base step max_records 1 None [] [] = (tr, ex)" by blast
    from loop_accumulates [OF this] assms(1) show ?thesis by simp
  qed
  have res: "\<forall>res. fetch cast_int32 target_word year field max_records step session material author
                   affil issn cdjournal = Inr res \<longrightarrow>
                 int (length (rows (df res))) \<le> max_records"
  proof (intro allI impI)
    fix res
    assume "fetch cast_int32 target_word year field max_records step session material author
                   affil issn cdjournal = Inr res"
    then have "finish cast_int32 ex = Inr res" by (simp add: fetch_finish [OF assms(2)])
    from finish_Inr [OF this] main assms(1) show "int (length (rows (df res))) \<le> max_records"
      by (auto simp: rows_build_frame empty_frame_def)
  qed
  from main res inner show ?thesis by blast
qed

theorem max_records_bound_witness:
  "0 < (5::int) \<and>
   int (length (records_of (butlast (map snd (fst
     (fetch_run (Some ''x'') 1950 ''article'' 5 3 three_per_page None None None None None)))))) < 5 \<and>
   length (fst (fetch_run (Some ''x'') 1950 ''article'' 5 3 three_per_page None None None None None))
     = 2 \<and>
   map_sum id (\<lambda>res. (length (rows (df res)), total_results res))
     (fetch digits_cast (Some ''x'') 1950 ''article'' 5 3 three_per_page None None None None None)
     = Inr (5, Some 5)"
proof -
  have pos: "0 < (5::int)" by simp
  have run: "fetch_run (Some ''x'') 1950 ''article'' 5 3 three_per_page None None None None None
      = (fst (fetch_run (Some ''x'') 1950 ''article'' 5 3 three_per_page None None None None None),
         snd (fetch_run (Some ''x'') 1950 ''article'' 5 3 three_per_page None None None None None))"
    by simp
  from max_records_bound [OF pos run, of digits_cast]
  have before: "int (length (records_of (butlast (map snd (fst
     (fetch_run (Some ''x'') 1950 ''article'' 5 3 three_per_page None None None None None)))))) < 5"
    by blast
  have requests: "length (fst (fetch_run (Some ''x'') 1950 ''article'' 5 3 three_per_page
      None None None None None)) = 2"
    by code_simp
  have result: "map_sum id (\<lambda>res. (length (rows (df res)), total_results res))
     (fetch digits_cast (Some ''x'') 1950 ''article'' 5 3 three_per_page None None None None None)
     = Inr (5, Some 5)"
    by code_simp
  from pos before requests result show ?thesis by blast
qed

text \<open>
  C10. An iteration that reaches the loop over the entries (the list of entries is not
  empty) appends at least one record, whatever \<open>max_records\<close> is; so \<open>fetch\<close> never
  leaves its loop by the break on an unchanged accumulator, and a run that returns a
  result has left the loop by the sentinel return, the break on zero entries, the break
  on \<open>max_records\<close> or the break on a cursor beyond the total.
\<close>

theorem no_progress_break_is_dead:
  "(\<forall>max_records all_data entries. entries \<noteq> [] \<longrightarrow>
      length all_data < length (append_entries max_records all_data entries)) \<and>
   (\<forall>c a. snd (fetch_run target_word year field max_records step session material author affil
                  issn cdjournal) \<noteq> Break NoProgress c a) \<and>
   (\<forall>res. fetch cast_int32 target_word year field max_records step session material author affil
             issn cdjournal = Inr res \<longrightarrow>
      snd (fetch_run target_word year field max_records step session material author affil
             issn cdjournal)
        \<in> {ReturnEmpty} \<union> {Break reason c a | reason c a.
                                reason \<in> {ZeroEntries, MaxRecords, PastTotal}})"
proof -
  obtain tr ex where run: "fetch_run target_word year field max_records step session material
      author affil issn cdjournal = (tr, ex)"
    by (cases "fetch_run target_word year field max_records step session material
      author affil issn cdjournal")
  have np: "\<forall>c a. ex \<noteq> Break NoProgress c a"
  proof (cases "tr = []")
    case True
    with fetch_run_cases [OF run] show ?thesis
      using loop_exits [of session _ step max_records 1 None "[]" "[]" tr ex] by auto
  next
    case False
    from loop_exits [OF fetch_run_new(1) [OF run False]] show ?thesis by blast
  qed
  have "ex \<in> {ReturnEmpty} \<union> {Break reason c a | reason c a.
                                reason \<in> {ZeroEntries, MaxRecords, PastTotal}}"
    if "fetch cast_int32 target_word year field max_records step session material author affil
             issn cdjournal = Inr res" for res
  proof -
    from that have "finish cast_int32 ex = Inr res" by (simp add: fetch_finish [OF run])
    from finish_Inr [OF this] np show ?thesis
      by (auto, case_tac reason, auto)
  qed
  with np run show ?thesis by (auto simp: append_entries_grows)
qed

theorem no_progress_break_is_dead_witness:
  "[bare_entry] \<noteq> [] \<and>
   length ([] :: raw_record list) < length (append_entries 5 [] [bare_entry]) \<and>
   snd (fetch_run (Some ''x'') 1950 ''article'' 5 3 three_per_page None None None None None)
     \<noteq> Break NoProgress None [] \<and>
   (case snd (fetch_run (Some ''x'') 1950 ''article'' 5 3 three_per_page None None None None None)
    of Break reason c a \<Rightarrow> reason = MaxRecords | _ \<Rightarrow> False)"
proof -
  note dead = no_progress_break_is_dead [of "Some ''x''" 1950 "''article''" 5 3 three_per_page
      None None None None None digits_cast]
  have ne: "[bare_entry] \<noteq> []" by simp
  from dead ne have grows:
    "length ([] :: raw_record list) < length (append_entries 5 [] [bare_entry])"
    by blast
  from dead have never:
    "snd (fetch_run (Some ''x'') 1950 ''article'' 5 3 three_per_page None None None None None)
       \<noteq> Break NoProgress None []"
    by blast
  have how: "(case snd (fetch_run (Some ''x'') 1950 ''article'' 5 3 three_per_page
                          None None None None None)
              of Break reason c a \<Rightarrow> reason = MaxRecords | _ \<Rightarrow> False)"
    by code_simp
  from ne grows never how show ?thesis by blast
qed

text \<open>
  C2, as the claim states it, fails: a page reports the total 10, the next page carries
  the sentinel status, and \<open>fetch\<close> returns \<open>total_results = 0\<close>.
\<close>

theorem total_results_first_page_counterexample:
  "first_reported (map snd (fst
     (fetch_run (Some ''x'') 1950 ''article'' 5 1 total_then_sentinel None None None None None)))
     = Some 10 \<and>
   map_sum id total_results
     (fetch digits_cast (Some ''x'') 1950 ''article'' 5 1 total_then_sentinel None None None None
        None) = Inr (Some 0)"
  by code_simp

text \<open>
  C2, amended. The \<open>total_results\<close> of a returned result is never \<open>None\<close>. When the
  run did not end on the sentinel status, it is the total of the first requested page that
  reports one (a later page cannot replace it), and the number of rows of the result when
  no page reports one. When the run ended on the sentinel status it is 0.
\<close>

theorem total_results_first_reported:
  assumes "fetch_run target_word year field max_records step session material author affil issn
             cdjournal = (tr, ex)"
    and "fetch cast_int32 target_word year field max_records step session material author affil
           issn cdjournal = Inr res"
  shows "total_results res \<noteq> None \<and>
         (if is_sentinel (snd (last tr)) then total_results res = Some 0
          else total_results res =
                 (case first_reported (map snd tr) of
                    Some t \<Rightarrow> Some t
                  | None \<Rightarrow> Some (int (length (rows (df res))))))"
proof -
  note ne = fetch_Inr_loop(1) [OF assms] and fin = fetch_Inr_loop(2) [OF assms]
  note facts = run_facts [OF assms(1) ne]
  from finish_Inr [OF fin] show ?thesis
  proof
    assume "ex = ReturnEmpty \<and> res = \<lparr>df = empty_frame, total_results = Some 0\<rparr>"
    with facts(1) show ?thesis by simp
  next
    assume "\<exists>reason c a. ex = Break reason c a \<and> df res = build_frame cast_int32 a \<and>
              total_results res = (if c = None then Some (int (length a)) else c)"
    then obtain reason c a where br: "ex = Break reason c a"
      and frame: "df res = build_frame cast_int32 a"
      and tot: "total_results res = (if c = None then Some (int (length a)) else c)"
      by blast
    from facts(1) br have ns: "\<not> is_sentinel (snd (last tr))" by simp
    from facts(4) br have c: "c = first_reported (map snd tr)" by blast
    from frame have len: "length (rows (df res)) = length a" by (simp add: rows_build_frame)
    from tot c ns len show ?thesis by (cases "first_reported (map snd tr)") simp_all
  qed
qed

theorem total_results_first_reported_witness:
  "total_results (projr (fetch digits_cast (Some ''x'') 1950 ''article'' 100 3 total_of_four None None None None None)) \<noteq> None \<and>
   map_sum id total_results (fetch digits_cast (Some ''x'') 1950 ''article'' 100 3 total_of_four None None None None None) = Inr (Some 4) \<and>
   first_reported (map snd (fst (fetch_run (Some ''x'') 1950 ''article'' 100 3 total_of_four None None None None None))) = Some 4 \<and>
   \<not> is_sentinel (snd (last (fst (fetch_run (Some ''x'') 1950 ''article'' 100 3 total_of_four None None None None None))))"
proof -
  have run: "fetch_run (Some ''x'') 1950 ''article'' 100 3 total_of_four None None None None None = (fst (fetch_run (Some ''x'') 1950 ''article'' 100 3 total_of_four None None None None None), snd (fetch_run (Some ''x'') 1950 ''article'' 100 3 total_of_four None None None None None))"
    by simp
  have res: "fetch digits_cast (Some ''x'') 1950 ''article'' 100 3 total_of_four None None None None None = Inr (projr (fetch digits_cast (Some ''x'') 1950 ''article'' 100 3 total_of_four None None None None None))"
    by code_simp
  from total_results_first_reported [OF run res]
  have set: "total_results (projr (fetch digits_cast (Some ''x'') 1950 ''article'' 100 3 total_of_four None None None None None)) \<noteq> None"
    by blast
  have val: "map_sum id total_results (fetch digits_cast (Some ''x'') 1950 ''article'' 100 3 total_of_four None None None None None) = Inr (Some 4)"
    by code_simp
  have first: "first_reported (map snd (fst (fetch_run (Some ''x'') 1950 ''article'' 100 3 total_of_four None None None None None))) = Some 4"
    by code_simp
  have ns: "\<not> is_sentinel (snd (last (fst (fetch_run (Some ''x'') 1950 ''article'' 100 3 total_of_four None None None None None))))"
    by code_simp
  from set val first ns show ?thesis by blast
qed

text \<open>
  C4. When one of the requested pages carries the sentinel status \<open>ERR_001\<close>, that page
  is the last one requested and \<open>fetch\<close> returns, without an error, the empty frame
  (no row) with \<open>total_results = 0\<close>.
\<close>

theorem sentinel_returns_empty:
  assumes "fetch_run target_word year field max_records step session material author affil issn
             cdjournal = (tr, ex)"
    and "x \<in> set tr" and "is_sentinel (snd x)"
  shows "fetch cast_int32 target_word year field max_records step session material author affil
           issn cdjournal = Inr \<lparr> df = empty_frame, total_results = Some 0 \<rparr> \<and>
         rows empty_frame = [] \<and>
         x = last tr \<and> (\<forall>y \<in> set (butlast tr). \<not> is_sentinel (snd y))"
proof -
  from assms(2) have ne: "tr \<noteq> []" by auto
  note facts = run_facts [OF assms(1) ne]
  from assms(2) ne have "x \<in> set (butlast tr) \<or> x = last tr"
    by (metis append_butlast_last_id in_set_conv_decomp rotate1.simps(2) set_ConsD set_rotate1)
  with facts(2) assms(3) have last: "x = last tr" by blast
  with facts(1) assms(3) have "ex = ReturnEmpty" by simp
  then have "fetch cast_int32 target_word year field max_records step session material author affil
           issn cdjournal = Inr \<lparr> df = empty_frame, total_results = Some 0 \<rparr>"
    by (simp add: fetch_finish [OF assms(1)] finish_def)
  with last facts(2) show ?thesis by (simp add: empty_frame_def)
qed

theorem sentinel_returns_empty_witness:
  "last (fst (fetch_run (Some ''x'') 1950 ''article'' 5 1 total_then_sentinel None None None None None)) \<in> set (fst (fetch_run (Some ''x'') 1950 ''article'' 5 1 total_then_sentinel None None None None None)) \<and>
   is_sentinel (snd (last (fst (fetch_run (Some ''x'') 1950 ''article'' 5 1 total_then_sentinel None None None None None)))) \<and>
   fetch digits_cast (Some ''x'') 1950 ''article'' 5 1 total_then_sentinel None None None None None = Inr \<lparr> df = empty_frame, total_results = Some 0 \<rparr>"
proof -
  have run: "fetch_run (Some ''x'') 1950 ''article'' 5 1 total_then_sentinel None None None None None = (fst (fetch_run (Some ''x'') 1950 ''article'' 5 1 total_then_sentinel None None None None None), snd (fetch_run (Some ''x'') 1950 ''article'' 5 1 total_then_sentinel None None None None None))"
    by simp
  have "length (fst (fetch_run (Some ''x'') 1950 ''article'' 5 1 total_then_sentinel None None None None None)) = 2"
    by code_simp
  then have "fst (fetch_run (Some ''x'') 1950 ''article'' 5 1 total_then_sentinel None None None None None) \<noteq> []" by auto
  then have mem: "last (fst (fetch_run (Some ''x'') 1950 ''article'' 5 1 total_then_sentinel None None None None None)) \<in> set (fst (fetch_run (Some ''x'') 1950 ''article'' 5 1 total_then_sentinel None None None None None))" by simp
  have sent: "is_sentinel (snd (last (fst (fetch_run (Some ''x'') 1950 ''article'' 5 1 total_then_sentinel None None None None None))))"
    by code_simp
  from sentinel_returns_empty [OF run mem sent, of digits_cast]
  have "fetch digits_cast (Some ''x'') 1950 ''article'' 5 1 total_then_sentinel None None None None None = Inr \<lparr> df = empty_frame, total_results = Some 0 \<rparr>"
    by blast
  with mem sent show ?thesis by blast
qed

text \<open>
  C3, as the claim states it, fails: the first page gives one record, the second page
  carries the sentinel status, and \<open>fetch\<close> returns no row; the record accumulated so far
  is dropped.
\<close>

theorem graceful_exit_counterexample:
  "is_sentinel (snd (last (fst
     (fetch_run (Some ''x'') 1950 ''article'' 5 1 total_then_sentinel None None None None None))))
   \<and> length (records_of (butlast (map snd (fst
     (fetch_run (Some ''x'') 1950 ''article'' 5 1 total_then_sentinel None None None None None)))))
     = 1
   \<and> map_sum id (\<lambda>res. length (rows (df res)))
     (fetch digits_cast (Some ''x'') 1950 ''article'' 5 1 total_then_sentinel None None None None
        None) = Inr 0"
  by code_simp

text \<open>
  C3, amended. When a requested page carries the sentinel status, \<open>fetch\<close> raises no
  error and returns the empty frame with \<open>total_results = 0\<close>, whatever was accumulated
  before. When a requested page is an XML document without the sentinel status and
  without entries, and a total was captured on an earlier page or the total of this page
  is absent or an integer, this page is the last one requested and \<open>fetch\<close> raises no
  error and returns the records of the pages before it, possibly none. A page with
  entries always appends a record, so no page leaves the accumulator unchanged.
\<close>

theorem graceful_exits:
  assumes "fetch_run target_word year field max_records step session material author affil issn
             cdjournal = (tr, ex)"
  shows "(\<forall>x \<in> set tr. is_sentinel (snd x) \<longrightarrow>
            fetch cast_int32 target_word year field max_records step session material author
              affil issn cdjournal = Inr \<lparr> df = empty_frame, total_results = Some 0 \<rparr>) \<and>
         (\<forall>k root. k < length tr \<longrightarrow> snd (tr ! k) = Xml root \<longrightarrow>
            get_result_status root \<noteq> Some ''ERR_001'' \<longrightarrow>
            xpath_nodes root ''//atom:entry'' = [] \<longrightarrow>
            (first_reported (take k (map snd tr)) \<noteq> None \<or>
             (\<forall>e. get_total_results_first root \<noteq> Inl e)) \<longrightarrow>
            Suc k = length tr \<and>
            (\<exists>res. fetch cast_int32 target_word year field max_records step session material
                      author affil issn cdjournal = Inr res \<and>
                    rows (df res) =
                      map (with_columns_row cast_int32) (records_of (take k (map snd tr))))) \<and>
         (\<forall>m acc es. es \<noteq> [] \<longrightarrow> length acc < length (append_entries m acc es))"
proof -
  have sentinel: "fetch cast_int32 target_word year field max_records step session material author
      affil issn cdjournal = Inr \<lparr> df = empty_frame, total_results = Some 0 \<rparr>"
    if x: "x \<in> set tr" and s: "is_sentinel (snd x)" for x
  proof -
    from x have ne: "tr \<noteq> []" by auto
    note facts = run_facts [OF assms ne]
    from ne have "tr = butlast tr @ [last tr]" by simp
    then have "set tr = set (butlast tr) \<union> {last tr}"
      by (metis list.simps(15) set_append empty_set)
    with x have "x \<in> set (butlast tr) \<or> x = last tr" by auto
    with facts(2) s have "x = last tr" by blast
    with facts(1) s have "ex = ReturnEmpty" by simp
    then show ?thesis by (simp add: fetch_finish [OF assms] finish_def)
  qed
  have empty: "Suc k = length tr \<and>
      (\<exists>res. fetch cast_int32 target_word year field max_records step session material
                author affil issn cdjournal = Inr res \<and>
              rows (df res) =
                map (with_columns_row cast_int32) (records_of (take k (map snd tr))))"
    if k: "k < length tr" and page: "snd (tr ! k) = Xml root"
      and ns: "get_result_status root \<noteq> Some ''ERR_001''"
      and none: "xpath_nodes root ''//atom:entry'' = []"
      and tot: "first_reported (take k (map snd tr)) \<noteq> None \<or>
                (\<forall>e. get_total_results_first root \<noteq> Inl e)" for k root
  proof -
    from k have ne: "tr \<noteq> []" by auto
    note facts = run_facts [OF assms ne]
    from loop_zero_entries [OF fetch_run_new(1) [OF assms ne]]
    have every: "\<forall>k root. k < length tr \<longrightarrow> snd (tr ! k) = Xml root \<longrightarrow>
        get_result_status root \<noteq> Some ''ERR_001'' \<longrightarrow>
        xpath_nodes root ''//atom:entry'' = [] \<longrightarrow>
        (seen None (take k (map snd tr)) \<noteq> None \<or>
         (\<forall>e. get_total_results_first root \<noteq> Inl e)) \<longrightarrow>
        Suc k = length tr \<and> (\<exists>c a. ex = Break ZeroEntries c a)"
      by simp
    from tot have "seen None (take k (map snd tr)) \<noteq> None \<or>
        (\<forall>e. get_total_results_first root \<noteq> Inl e)"
      by (simp add: seen_def)
    with every k page ns none have "Suc k = length tr \<and> (\<exists>c a. ex = Break ZeroEntries c a)"
      by blast
    then obtain c a where last: "Suc k = length tr" and br: "ex = Break ZeroEntries c a"
      by blast
    from last have km: "length tr - 1 = k" by simp
    moreover from ne have "last tr = tr ! (length tr - 1)" by (rule last_conv_nth)
    ultimately have "last tr = tr ! k" by simp
    with page none ne have "page_entries (last (map snd tr)) = []"
      by (simp add: last_map page_entries_def)
    with ne have eq: "records_of (map snd tr) = records_of (butlast (map snd tr))"
      by (simp add: records_of_no_last)
    from km have bl: "butlast (map snd tr) = take k (map snd tr)"
      by (simp add: butlast_conv_take)
    from facts(5) br have "a = take (nat max_records) (records_of (map snd tr))" by blast
    with eq facts(6) have a: "a = records_of (take k (map snd tr))" by (simp add: bl)
    from br have "fetch cast_int32 target_word year field max_records step session material
        author affil issn cdjournal
        = Inr \<lparr> df = build_frame cast_int32 a,
                total_results = (if c = None then Some (int (length a)) else c) \<rparr>"
      by (simp add: fetch_finish [OF assms] finish_def)
    with last a show ?thesis by (simp add: rows_build_frame)
  qed
  have grows: "\<forall>m acc es. es \<noteq> [] \<longrightarrow> length acc < length (append_entries m acc es)"
    by (simp add: append_entries_grows)
  from sentinel empty grows show ?thesis by blast
qed

theorem graceful_exits_witness:
  "1 < length (fst (fetch_run (Some ''x'') 1950 ''article'' 5 2 total_then_no_entries None None None None None)) \<and>
   snd (fst (fetch_run (Some ''x'') 1950 ''article'' 5 2 total_then_no_entries None None None None None) ! 1) = Xml (document [] [] []) \<and>
   get_result_status (document [] [] []) \<noteq> Some ''ERR_001'' \<and>
   xpath_nodes (document [] [] []) ''//atom:entry'' = [] \<and>
   first_reported (take 1 (map snd (fst (fetch_run (Some ''x'') 1950 ''article'' 5 2 total_then_no_entries None None None None None)))) \<noteq> None \<and>
   Suc 1 = length (fst (fetch_run (Some ''x'') 1950 ''article'' 5 2 total_then_no_entries None None None None None)) \<and>
   map_sum id (\<lambda>res. (length (rows (df res)), total_results res)) (fetch digits_cast (Some ''x'') 1950 ''article'' 5 2 total_then_no_entries None None None None None)
     = Inr (2, Some 10)"
proof -
  have run: "fetch_run (Some ''x'') 1950 ''article'' 5 2 total_then_no_entries None None None None None = (fst (fetch_run (Some ''x'') 1950 ''article'' 5 2 total_then_no_entries None None None None None), snd (fetch_run (Some ''x'') 1950 ''article'' 5 2 total_then_no_entries None None None None None))"
    by simp
  have "length (fst (fetch_run (Some ''x'') 1950 ''article'' 5 2 total_then_no_entries None None None None None)) = 2"
    by code_simp
  then have k: "1 < length (fst (fetch_run (Some ''x'') 1950 ''article'' 5 2 total_then_no_entries None None None None None))" by simp
  from run_requests [OF run k]
  have page: "snd (fst (fetch_run (Some ''x'') 1950 ''article'' 5 2 total_then_no_entries None None None None None) ! 1) = Xml (document [] [] [])"
    by (simp add: total_then_no_entries_def)
  have doc: "get_result_status (document [] [] []) \<noteq> Some ''ERR_001'' \<and>
      xpath_nodes (document [] [] []) ''//atom:entry'' = []"
    by code_simp
  have tot: "first_reported (take 1 (map snd (fst (fetch_run (Some ''x'') 1950 ''article'' 5 2 total_then_no_entries None None None None None)))) \<noteq> None"
    by code_simp
  from graceful_exits [OF run, of digits_cast] k page doc tot
  have last: "Suc 1 = length (fst (fetch_run (Some ''x'') 1950 ''article'' 5 2 total_then_no_entries None None None None None))"
    by blast
  have res: "map_sum id (\<lambda>res. (length (rows (df res)), total_results res))
      (fetch digits_cast (Some ''x'') 1950 ''article'' 5 2 total_then_no_entries None None None None None) = Inr (2, Some 10)"
    by code_simp
  from k page doc tot last res show ?thesis by blast
qed

text \<open>
  C5. \<open>fetch\<close> raises \<open>ValueError\<close> without having made any request when the field is
  not an allowed one, when \<open>max_records\<close> or \<open>step\<close> is not positive, or when no
  usable search term is given (the year alone is not one); in the last case the message
  lists the parameters that are accepted. Hence every request that \<open>fetch\<close> makes has
  one of the search-term keys among its parameters.
\<close>

theorem validation_before_requests:
  "(field \<notin> ALLOWED_FIELDS \<or> max_records \<le> 0 \<or> step \<le> 0 \<or>
    \<not> usable_search_term target_word material author affil issn cdjournal \<longrightarrow>
      fst (fetch_run target_word year field max_records step session material author affil issn
             cdjournal) = [] \<and>
      (\<exists>msg. fetch cast_int32 target_word year field max_records step session material author
                affil issn cdjournal = Inl (ValueError msg))) \<and>
   (field \<in> ALLOWED_FIELDS \<and> 0 < max_records \<and> 0 < step \<and>
    \<not> usable_search_term target_word material author affil issn cdjournal \<longrightarrow>
      fetch cast_int32 target_word year field max_records step session material author affil issn
        cdjournal =
      Inl (ValueError (''At least one search parameter must be provided: '' @
             ''target_word (with field), material, author, affil, issn, or cdjournal.''))) \<and>
   (\<forall>x \<in> set (fst (fetch_run target_word year field max_records step session material author
                      affil issn cdjournal)).
      \<exists>k \<in> SEARCH_PARAM_KEYS. k \<in> dict_keys (fst x))"
proof -
  obtain tr ex where run: "fetch_run target_word year field max_records step session material
      author affil issn cdjournal = (tr, ex)"
    by (cases "fetch_run target_word year field max_records step session material
      author affil issn cdjournal")
  have invalid: "tr = [] \<and> (\<exists>msg. ex = Raise (ValueError msg))"
    if "field \<notin> ALLOWED_FIELDS \<or> max_records \<le> 0 \<or> step \<le> 0 \<or>
        \<not> usable_search_term target_word material author affil issn cdjournal"
    using fetch_run_cases [OF run] that no_term_no_key [of target_word material author affil issn
        cdjournal year field]
    by auto
  have message: "ex = Raise (ValueError no_search_term_message)"
    if "field \<in> ALLOWED_FIELDS \<and> 0 < max_records \<and> 0 < step \<and>
        \<not> usable_search_term target_word material author affil issn cdjournal"
    using run that no_term_no_key [of target_word material author affil issn cdjournal year field]
    by (auto simp: fetch_run_def Let_def split: if_splits)
  have keys: "\<exists>k \<in> SEARCH_PARAM_KEYS. k \<in> dict_keys (fst x)" if "x \<in> set tr" for x
  proof -
    from that obtain i where i: "i < length tr" and x: "x = tr ! i"
      by (auto simp: in_set_conv_nth)
    from that have "tr \<noteq> []" by auto
    with fetch_run_cases [OF run] obtain k where "k \<in> SEARCH_PARAM_KEYS"
      and "k \<in> dict_keys
             (build_base_params target_word year field material author affil issn cdjournal)"
      by blast
    with run_requests [OF run i] x show ?thesis
      by (auto simp: dict_keys_page_params)
  qed
  have f: "fetch cast_int32 target_word year field max_records step session material author affil
      issn cdjournal = finish cast_int32 ex"
    by (rule fetch_finish [OF run])
  have t: "fst (fetch_run target_word year field max_records step session material author affil
      issn cdjournal) = tr"
    by (simp add: run)
  from invalid have invalid': "tr = [] \<and> (\<exists>msg. finish cast_int32 ex = Inl (ValueError msg))"
    if "field \<notin> ALLOWED_FIELDS \<or> max_records \<le> 0 \<or> step \<le> 0 \<or>
        \<not> usable_search_term target_word material author affil issn cdjournal"
    using that by (auto simp: finish_def)
  from message have message': "finish cast_int32 ex =
      Inl (ValueError (''At least one search parameter must be provided: '' @
             ''target_word (with field), material, author, affil, issn, or cdjournal.''))"
    if "field \<in> ALLOWED_FIELDS \<and> 0 < max_records \<and> 0 < step \<and>
        \<not> usable_search_term target_word material author affil issn cdjournal"
    using that by (simp add: finish_def no_search_term_message_def)
  show ?thesis unfolding f t using invalid' message' keys by blast
qed

theorem validation_before_requests_witness:
  "''article'' \<in> ALLOWED_FIELDS \<and> (0::int) < 5 \<and> (0::int) < 3 \<and>
   \<not> usable_search_term None None None None None None \<and>
   fst (fetch_run None 1950 ''article'' 5 3 three_per_page None None None None None) = [] \<and>
   fetch digits_cast None 1950 ''article'' 5 3 three_per_page None None None None None =
     Inl (ValueError (''At least one search parameter must be provided: '' @
            ''target_word (with field), material, author, affil, issn, or cdjournal.''))"
proof -
  have hyp: "''article'' \<in> ALLOWED_FIELDS \<and> (0::int) < 5 \<and> (0::int) < 3 \<and>
      \<not> usable_search_term None None None None None None"
    by code_simp
  from validation_before_requests [of "''article''" 5 3 None None None None None None 1950
      three_per_page digits_cast] hyp
  have "fst (fetch_run None 1950 ''article'' 5 3 three_per_page None None None None None) = [] \<and>
    fetch digits_cast None 1950 ''article'' 5 3 three_per_page None None None None None =
     Inl (ValueError (''At least one search parameter must be provided: '' @
            ''target_word (with field), material, author, affil, issn, or cdjournal.''))"
    by blast
  with hyp show ?thesis by blast
qed

text \<open>
  C6. The request number \<open>k\<close> (from 0) carries the cursor \<open>1 + k * step\<close> as its
  \<open>start\<close> parameter and \<open>step\<close> as its \<open>count\<close>, and is answered by the session:
  the cursor starts at 1 and advances by \<open>step\<close> after every page. A further page is
  requested after page \<open>k\<close> only if the total captured up to that page, when there is
  one, is not below the advanced cursor: when the advanced cursor exceeds a captured
  total, the loop stops.
\<close>

theorem cursor_advances_by_step:
  assumes "fetch_run target_word year field max_records step session material author affil issn
             cdjournal = (tr, ex)"
  shows "(\<forall>k < length tr.
            map_of (fst (tr ! k)) ''start'' = Some (str_int (1 + int k * step)) \<and>
            map_of (fst (tr ! k)) ''count'' = Some (str_int step) \<and>
            snd (tr ! k) = session k (page_url (fst (tr ! k)))) \<and>
         (\<forall>k t. Suc k < length tr \<longrightarrow> first_reported (take (Suc k) (map snd tr)) = Some t \<longrightarrow>
            1 + int (Suc k) * step \<le> t)"
proof -
  have reqs: "map_of (fst (tr ! k)) ''start'' = Some (str_int (1 + int k * step)) \<and>
      map_of (fst (tr ! k)) ''count'' = Some (str_int step) \<and>
      snd (tr ! k) = session k (page_url (fst (tr ! k)))" if "k < length tr" for k
    by (simp add: run_requests [OF assms that] map_of_page_params)
  have stop: "1 + int (Suc k) * step \<le> t"
    if "Suc k < length tr" and "first_reported (take (Suc k) (map snd tr)) = Some t" for k t
  proof -
    from that(1) have "tr \<noteq> []" by auto
    from loop_captured [OF fetch_run_new(1) [OF assms this]] that show ?thesis
      by (simp add: seen_def)
  qed
  from reqs stop show ?thesis by blast
qed

theorem cursor_advances_by_step_witness:
  "Suc 0 < length (fst (fetch_run (Some ''x'') 1950 ''article'' 100 3 total_of_four
                          None None None None None)) \<and>
   first_reported (take (Suc 0) (map snd (fst (fetch_run (Some ''x'') 1950 ''article'' 100 3
      total_of_four None None None None None)))) = Some 4 \<and>
   map_of (fst (fst (fetch_run (Some ''x'') 1950 ''article'' 100 3 total_of_four
                       None None None None None) ! 1)) ''start'' = Some (str_int (1 + int 1 * 3)) \<and>
   str_int (1 + int 1 * 3) = ''4'' \<and>
   length (fst (fetch_run (Some ''x'') 1950 ''article'' 100 3 total_of_four
                  None None None None None)) = 2"
proof -
  have run: "fetch_run (Some ''x'') 1950 ''article'' 100 3 total_of_four None None None None None
      = (fst (fetch_run (Some ''x'') 1950 ''article'' 100 3 total_of_four None None None None None),
         snd (fetch_run (Some ''x'') 1950 ''article'' 100 3 total_of_four None None None None None))"
    by simp
  have len: "length (fst (fetch_run (Some ''x'') 1950 ''article'' 100 3 total_of_four
                  None None None None None)) = 2"
    by code_simp
  then have k: "1 < length (fst (fetch_run (Some ''x'') 1950 ''article'' 100 3 total_of_four
                  None None None None None))"
    by simp
  have tot: "first_reported (take (Suc 0) (map snd (fst (fetch_run (Some ''x'') 1950 ''article''
      100 3 total_of_four None None None None None)))) = Some 4"
    by code_simp
  from cursor_advances_by_step [OF run] k
  have start: "map_of (fst (fst (fetch_run (Some ''x'') 1950 ''article'' 100 3 total_of_four
      None None None None None) ! 1)) ''start'' = Some (str_int (1 + int 1 * 3))"
    by blast
  have four: "str_int (1 + int 1 * 3) = ''4''"
    by code_simp
  from k len tot start four show ?thesis by simp
qed

text \<open>
  C7, as the claim states it, fails: a first page that reports the total 7 and has no
  entry gives a result without any column, and with \<open>total_results = 7\<close>.
\<close>

theorem zero_rows_schema_counterexample:
  "fetch digits_cast (Some ''x'') 1950 ''article'' 5 1 total_without_entries None None None None
     None = Inr \<lparr> df = \<lparr> columns = [], rows = [] \<rparr>, total_results = Some 7 \<rparr>"
  by code_simp

text \<open>
  C7, amended. A result of \<open>fetch\<close> without rows has no columns either: it is the
  empty frame, not an error. Its \<open>total_results\<close> is never \<open>None\<close>: it is 0 when the
  run ended on the sentinel status or when no page reported a total, and else the first
  total that a page reported. A result with rows has the fifteen columns of the schema,
  in its order, \<open>url_doi\<close> last.
\<close>

theorem zero_rows_result:
  assumes "fetch_run target_word year field max_records step session material author affil issn
             cdjournal = (tr, ex)"
    and "fetch cast_int32 target_word year field max_records step session material author affil
           issn cdjournal = Inr res"
  shows "(rows (df res) = [] \<longrightarrow>
            columns (df res) = [] \<and>
            total_results res =
              (if is_sentinel (snd (last tr)) then Some 0
               else case first_reported (map snd tr) of None \<Rightarrow> Some 0 | Some t \<Rightarrow> Some t)) \<and>
         (rows (df res) \<noteq> [] \<longrightarrow>
            columns (df res) =
              [''author'', ''article_title'', ''material_title'', ''cdjournal'', ''p_issn'',
               ''o_issn'', ''article_link'', ''pubyear'', ''doi'', ''volume'', ''cdvols'',
               ''number'', ''starting_page'', ''ending_page'', ''url_doi'']) \<and>
         total_results res \<noteq> None"
proof -
  from fetch_result_cases [OF assms] show ?thesis
  proof
    assume "is_sentinel (snd (last tr)) \<and> res = \<lparr>df = empty_frame, total_results = Some 0\<rparr>"
    then show ?thesis by (simp add: empty_frame_def)
  next
    assume "\<not> is_sentinel (snd (last tr)) \<and>
      (\<exists>a. a = take (nat max_records) (records_of (map snd tr)) \<and>
           df res = build_frame cast_int32 a \<and>
           total_results res =
             (case first_reported (map snd tr) of
                None \<Rightarrow> Some (int (length a)) | Some t \<Rightarrow> Some t))"
    then obtain a where ns: "\<not> is_sentinel (snd (last tr))"
      and frame: "df res = build_frame cast_int32 a"
      and tot: "total_results res =
             (case first_reported (map snd tr) of
                None \<Rightarrow> Some (int (length a)) | Some t \<Rightarrow> Some t)"
      by blast
    show ?thesis
    proof (cases "a = []")
      case True
      with frame tot ns show ?thesis
        by (simp add: build_frame_def empty_frame_def split: option.splits)
    next
      case False
      with frame tot ns show ?thesis
        by (simp add: build_frame_def record_keys_def split: option.splits)
    qed
  qed
qed

theorem zero_rows_result_witness:
  "fetch digits_cast (Some ''x'') 1950 ''article'' 5 1 total_without_entries None None None None
     None
     = Inr (projr (fetch digits_cast (Some ''x'') 1950 ''article'' 5 1 total_without_entries
                     None None None None None)) \<and>
   rows (df (projr (fetch digits_cast (Some ''x'') 1950 ''article'' 5 1 total_without_entries
                      None None None None None))) = [] \<and>
   columns (df (projr (fetch digits_cast (Some ''x'') 1950 ''article'' 5 1 total_without_entries
                         None None None None None))) = [] \<and>
   total_results (projr (fetch digits_cast (Some ''x'') 1950 ''article'' 5 1
                           total_without_entries None None None None None)) = Some 7"
proof -
  have run: "fetch_run (Some ''x'') 1950 ''article'' 5 1 total_without_entries None None None None
      None
      = (fst (fetch_run (Some ''x'') 1950 ''article'' 5 1 total_without_entries None None None
                None None),
         snd (fetch_run (Some ''x'') 1950 ''article'' 5 1 total_without_entries None None None
                None None))"
    by simp
  have res: "fetch digits_cast (Some ''x'') 1950 ''article'' 5 1 total_without_entries None None
      None None None
     = Inr (projr (fetch digits_cast (Some ''x'') 1950 ''article'' 5 1 total_without_entries
                     None None None None None))"
    by code_simp
  have none: "rows (df (projr (fetch digits_cast (Some ''x'') 1950 ''article'' 5 1
      total_without_entries None None None None None))) = []"
    by code_simp
  from zero_rows_result [OF run res] none
  have cols: "columns (df (projr (fetch digits_cast (Some ''x'') 1950 ''article'' 5 1
      total_without_entries None None None None None))) = []"
    by blast
  have tot: "total_results (projr (fetch digits_cast (Some ''x'') 1950 ''article'' 5 1
      total_without_entries None None None None None)) = Some 7"
    by code_simp
  from res none cols tot show ?thesis by blast
qed

text \<open>
  C8. In every row of a result of \<open>fetch\<close>, \<open>url_doi\<close> is \<open>https://doi.org/\<close>
  followed by the DOI when \<open>doi\<close> is not null, and null when \<open>doi\<close> is null.
\<close>

theorem url_doi_from_doi:
  assumes "fetch cast_int32 target_word year field max_records step session material author affil
           issn cdjournal = Inr res"
    and "row \<in> set (rows (df res))"
  shows "col_url_doi row =
           (case col_doi row of None \<Rightarrow> None | Some d \<Rightarrow> Some (''https://doi.org/'' @ d))"
proof -
  obtain tr ex where run: "fetch_run target_word year field max_records step session material
      author affil issn cdjournal = (tr, ex)"
    by (cases "fetch_run target_word year field max_records step session material
      author affil issn cdjournal")
  from fetch_result_cases [OF run assms(1)] assms(2)
  obtain a where "df res = build_frame cast_int32 a"
    by (auto simp: empty_frame_def)
  with assms(2) obtain r where "row = with_columns_row cast_int32 r"
    by (auto simp: rows_build_frame)
  then show ?thesis by (cases "raw_doi r") (simp_all add: with_columns_row_def)
qed

theorem url_doi_from_doi_witness:
  "hd (rows (df (projr (fetch digits_cast (Some ''x'') 1950 ''article'' 5 3 three_per_page
                          None None None None None))))
     \<in> set (rows (df (projr (fetch digits_cast (Some ''x'') 1950 ''article'' 5 3 three_per_page
                                 None None None None None)))) \<and>
   col_doi (hd (rows (df (projr (fetch digits_cast (Some ''x'') 1950 ''article'' 5 3
                                   three_per_page None None None None None)))))
     = Some ''10.1234/abcd'' \<and>
   col_url_doi (hd (rows (df (projr (fetch digits_cast (Some ''x'') 1950 ''article'' 5 3
                                       three_per_page None None None None None)))))
     = Some ''https://doi.org/10.1234/abcd'' \<and>
   col_doi (rows (df (projr (fetch digits_cast (Some ''x'') 1950 ''article'' 5 3
                               three_per_page None None None None None))) ! 1) = None \<and>
   col_url_doi (rows (df (projr (fetch digits_cast (Some ''x'') 1950 ''article'' 5 3
                                   three_per_page None None None None None))) ! 1) = None"
proof -
  let ?rows = "rows (df (projr (fetch digits_cast (Some ''x'') 1950 ''article'' 5 3 three_per_page
                                 None None None None None)))"
  have res: "fetch digits_cast (Some ''x'') 1950 ''article'' 5 3 three_per_page None None None
      None None
     = Inr (projr (fetch digits_cast (Some ''x'') 1950 ''article'' 5 3 three_per_page None None
                     None None None))"
    by code_simp
  have "length ?rows = 5" by code_simp
  then have ne: "?rows \<noteq> []" and one: "1 < length ?rows" by auto
  from ne have mem0: "hd ?rows \<in> set ?rows" by (rule hd_in_set)
  from one have mem1: "?rows ! 1 \<in> set ?rows" by (rule nth_mem)
  have doi0: "col_doi (hd ?rows) = Some ''10.1234/abcd''" by code_simp
  have doi1: "col_doi (?rows ! 1) = None" by code_simp
  have "col_url_doi (hd ?rows) =
      (case col_doi (hd ?rows) of None \<Rightarrow> None | Some d \<Rightarrow> Some (''https://doi.org/'' @ d))"
    by (rule url_doi_from_doi [OF res mem0])
  then have url0: "col_url_doi (hd ?rows) = Some ''https://doi.org/10.1234/abcd''"
    by (simp only: doi0 option.case append.simps)
  have "col_url_doi (?rows ! 1) =
      (case col_doi (?rows ! 1) of None \<Rightarrow> None | Some d \<Rightarrow> Some (''https://doi.org/'' @ d))"
    by (rule url_doi_from_doi [OF res mem1])
  then have url1: "col_url_doi (?rows ! 1) = None"
    by (simp only: doi1 option.case)
  from mem0 doi0 url0 doi1 url1 show ?thesis by blast
qed

text \<open>
  C9. With valid arguments, when the first page is an XML document without the sentinel
  status whose \<open>totalResults\<close> text, stripped, is not empty and is not accepted by
  \<open>int\<close>, \<open>fetch\<close> raises the \<open>ValueError\<close> of the conversion, not a
  \<open>JStageAPIError\<close>, after this one request.
\<close>

theorem total_not_integer_raises_ValueError:
  assumes "field \<in> ALLOWED_FIELDS" and "0 < max_records" and "0 < step"
    and "usable_search_term target_word material author affil issn cdjournal"
    and "session 0 (page_url (page_params
           (build_base_params target_word year field material author affil issn cdjournal)
           step 1)) = Xml root"
    and "get_result_status root \<noteq> Some ''ERR_001''"
    and "total_text root = Some t" and "py_int t = None"
  shows "fetch cast_int32 target_word year field max_records step session material author affil
           issn cdjournal
         = Inl (ValueError (''invalid literal for int() with base 10: '' @ [CHR 0x27] @ t
                              @ [CHR 0x27])) \<and>
         (\<forall>msg. fetch cast_int32 target_word year field max_records step session material author
                   affil issn cdjournal \<noteq> Inl (JStageAPIError msg)) \<and>
         length (fst (fetch_run target_word year field max_records step session material author
                        affil issn cdjournal)) = 1"
proof -
  let ?base = "build_base_params target_word year field material author affil issn cdjournal"
  let ?ps = "page_params ?base step 1"
  from assms(1-3) term_gives_key [OF assms(4,1), of year]
  have run: "fetch_run target_word year field max_records step session material author affil issn
      cdjournal = loop session ?base step max_records 1 None [] []"
    by (auto simp: fetch_run_def Let_def)
  have "page_step step max_records 1 None [] (Xml root)
      = Stop (Raise (ValueError (''invalid literal for int() with base 10: '' @ [CHR 0x27] @ t
                              @ [CHR 0x27])))"
    using assms(6,8) by (simp add: page_step_def total_text_int [OF assms(7)] int_or_raise_def)
  with assms(5) have "loop session ?base step max_records 1 None [] []
      = ([(?ps, Xml root)],
         Raise (ValueError (''invalid literal for int() with base 10: '' @ [CHR 0x27] @ t
                              @ [CHR 0x27])))"
    by (simp add: loop_step [of session ?base step max_records 1 None "[]" "[]"] Let_def)
  with run show ?thesis by (simp add: fetch_def finish_def)
qed

theorem total_not_integer_raises_ValueError_witness:
  "''article'' \<in> ALLOWED_FIELDS \<and> (0::int) < 5 \<and> (0::int) < 1 \<and>
   usable_search_term (Some ''x'') None None None None None \<and>
   get_result_status (document [] [''abc''] [bare_entry]) \<noteq> Some ''ERR_001'' \<and>
   total_text (document [] [''abc''] [bare_entry]) = Some ''abc'' \<and>
   py_int ''abc'' = None \<and>
   fetch digits_cast (Some ''x'') 1950 ''article'' 5 1 total_not_a_number None None None None None
     = Inl (ValueError (''invalid literal for int() with base 10: '' @ [CHR 0x27] @ ''abc''
                          @ [CHR 0x27]))"
proof -
  have args: "''article'' \<in> ALLOWED_FIELDS \<and> (0::int) < 5 \<and> (0::int) < 1 \<and>
      usable_search_term (Some ''x'') None None None None None"
    by code_simp
  have page: "total_not_a_number 0 (page_url (page_params
      (build_base_params (Some ''x'') 1950 ''article'' None None None None None) 1 1))
      = Xml (document [] [''abc''] [bare_entry])"
    by (simp add: total_not_a_number_def)
  have doc: "get_result_status (document [] [''abc''] [bare_entry]) \<noteq> Some ''ERR_001'' \<and>
      total_text (document [] [''abc''] [bare_entry]) = Some ''abc'' \<and> py_int ''abc'' = None"
    by code_simp
  from args doc
    total_not_integer_raises_ValueError [of "''article''" 5 1 "Some ''x''" None None None None
      None total_not_a_number 1950 "document [] [''abc''] [bare_entry]" "''abc''" digits_cast,
      OF _ _ _ _ page]
  have "fetch digits_cast (Some ''x'') 1950 ''article'' 5 1 total_not_a_number None None None None
      None
     = Inl (ValueError (''invalid literal for int() with base 10: '' @ [CHR 0x27] @ ''abc''
                          @ [CHR 0x27]))"
    by blast
  with args doc show ?thesis by blast
qed

end
